theory Spec2Isabelle
  imports Main
begin

section \<open>Data model of the posts hook (src/project/src/hooks/usePosts.ts)\<close>

text \<open>
  A reaction row as the posts query embeds it. \<open>reaction_type\<close> is the string the source
  compares with \<open>'LIKE'\<close>, \<open>'COMMENT'\<close> and \<open>'SLIDESHOW'\<close>.
\<close>

record reaction =
  reaction_id :: string
  reaction_user_id :: string
  reaction_type :: string
  emoji_type :: "string option"
  comment :: "string option"
  created_at :: int

text \<open>
  A row of the \<open>posts\<close> table as the query returns it. \<open>timestamp\<close> is the number that
  \<open>new Date(post.timestamp).getTime()\<close> yields (milliseconds since the epoch);
  \<open>reactions\<close> is nullable, the source reads it as \<open>post.reactions || []\<close>.
  The field \<open>id\<close> of the source is \<open>post_id\<close> here.
\<close>

record post_row =
  post_id :: string
  username :: string
  media_url :: string
  media_type :: string
  caption :: string
  avatar_url :: string
  user_id :: string
  timestamp :: int
  is_favorite :: bool
  streak_count :: int
  reactions :: "reaction list option"

text \<open>
  The processed post of \<open>fetchPosts\<close>: the row spread into a new object, with
  \<open>reactions\<close> overwritten by the non-null list and the derived fields added.
\<close>

record post = post_row +
  family_id :: string
  likes_count :: nat
  comments_count :: nat
  user_has_liked :: bool
  elderly_reactions :: "reaction list"

text \<open>The React state of the hook: \<open>posts\<close>, \<open>loading\<close>, \<open>error\<close>.\<close>

record hook_state =
  posts :: "post list"
  loading :: bool
  error :: "string option"

text \<open>
  A value thrown inside a \<open>try\<close> block: an instance of \<open>Error\<close> with its message, or
  any other object (the \<open>err instanceof Error\<close> test of the handlers tells them apart).
\<close>

datatype thrown = Error string | NonError

text \<open>What the backend answers to the three requests of one \<open>fetchPosts\<close> call.\<close>

record fetch_responses =
  auth_user :: "string option"
  family_result :: "thrown + int option"
  posts_result :: "thrown + post_row list option"

section \<open>Hydration: aggregate building and retention\<close>

text \<open>\<open>post.reactions || []\<close>\<close>

definition reactions_or_empty :: "'a post_row_scheme \<Rightarrow> reaction list" where
  "reactions_or_empty p = (case reactions p of None \<Rightarrow> [] | Some rs \<Rightarrow> rs)"

text \<open>The callback of \<open>data?.map(...)\<close> in \<open>fetchPosts\<close> (lines 103-117).\<close>

definition process_post :: "string \<Rightarrow> string \<Rightarrow> post_row \<Rightarrow> post" where
  "process_post currentFamilyId uid p =
     (let rs = reactions_or_empty p;
          likes = filter (\<lambda>r. reaction_type r = ''LIKE'') rs;
          comments = filter (\<lambda>r. reaction_type r = ''COMMENT'') rs
      in post_row.extend (p\<lparr>reactions := Some rs\<rparr>)
           (post.fields currentFamilyId (length likes) (length comments)
              (list_ex (\<lambda>r. reaction_user_id r = uid) likes)
              (filter (\<lambda>r. reaction_type r = ''SLIDESHOW'') rs)))"

text \<open>\<open>data?.map(...) || []\<close>\<close>

definition processedPosts :: "string \<Rightarrow> string \<Rightarrow> post_row list option \<Rightarrow> post list" where
  "processedPosts currentFamilyId uid data =
     (case data of None \<Rightarrow> [] | Some rows \<Rightarrow> map (process_post currentFamilyId uid) rows)"

text \<open>\<open>familyData.slideshow_photo_limit || 30\<close>: null, undefined and 0 are falsy.\<close>

definition photoLimit :: "int option \<Rightarrow> int" where
  "photoLimit slideshow_photo_limit =
     (case slideshow_photo_limit of None \<Rightarrow> 30 | Some n \<Rightarrow> if n = 0 then 30 else n)"

text \<open>
  Lines 119-152 of \<open>fetchPosts\<close>: the posts selected for deletion and the list handed to
  \<open>setPosts\<close>. \<open>Array.prototype.sort\<close> is stable, as is \<open>sort_key\<close>;
  \<open>slice(0, n)\<close> is \<open>take n\<close>; \<open>some\<close> is \<open>list_ex\<close>.
\<close>

definition retention :: "post list \<Rightarrow> int \<Rightarrow> post list \<times> post list" where
  "retention processed limit =
     (if int (length processed) > limit then
        (let nonFavoritePosts = sort_key timestamp (filter (\<lambda>p. \<not> is_favorite p) processed);
             postsToRemove = int (length processed) - limit
         in if int (length nonFavoritePosts) \<ge> postsToRemove then
              (let postsToDelete = take (nat postsToRemove) nonFavoritePosts;
                   remainingPosts =
                     filter (\<lambda>p. \<not> list_ex (\<lambda>d. post_id d = post_id p) postsToDelete) processed
               in (postsToDelete, remainingPosts))
            else ([], processed))
      else ([], processed))"

text \<open>The \<open>catch\<close> and \<open>finally\<close> blocks of \<open>fetchPosts\<close>.\<close>

definition fetch_failed :: "thrown \<Rightarrow> hook_state \<Rightarrow> hook_state" where
  "fetch_failed err st =
     st\<lparr>error := Some (case err of Error m \<Rightarrow> m | NonError \<Rightarrow> ''Failed to load posts''),
        loading := False\<rparr>"

text \<open>
  \<open>fetchPosts\<close>: the new hook state and the ids for which a delete request was sent, in
  order. The result of a delete request is not read by the source.
\<close>

definition fetchPosts :: "string \<Rightarrow> fetch_responses \<Rightarrow> hook_state \<Rightarrow> hook_state \<times> string list" where
  "fetchPosts currentFamilyId resp st =
     (case auth_user resp of
        None \<Rightarrow> (fetch_failed (Error ''Not authenticated'') st, [])
      | Some uid \<Rightarrow>
          (case family_result resp of
             Inl familyError \<Rightarrow> (fetch_failed familyError st, [])
           | Inr lim \<Rightarrow>
               (case posts_result resp of
                  Inl err \<Rightarrow> (fetch_failed err st, [])
                | Inr data \<Rightarrow>
                    (let r = retention (processedPosts currentFamilyId uid data) (photoLimit lim)
                     in (st\<lparr>posts := snd r, loading := False\<rparr>, map post_id (fst r))))))"

section \<open>Streak calculation and post creation\<close>

text \<open>
  Calendar dates. \<open>toISODate\<close> is \<open>new Date(ms).toISOString().split('T')[0]\<close>: the UTC
  calendar day of an instant, represented by its day number since 1970-01-01 (the
  strings \<open>YYYY-MM-DD\<close> and the day numbers correspond one to one).
  \<open>date_getTime\<close> is \<open>new Date('YYYY-MM-DD').getTime()\<close>: midnight UTC of that day in
  milliseconds. All values involved are integers far below \<open>2^53\<close>, so the arithmetic of
  the source is exact and \<open>Math.floor (a / b)\<close> is \<open>a div b\<close>.
\<close>

definition ms_per_day :: int where
  "ms_per_day = 1000 * 60 * 60 * 24"

definition toISODate :: "int \<Rightarrow> int" where
  "toISODate ms = ms div ms_per_day"

definition date_getTime :: "int \<Rightarrow> int" where
  "date_getTime day = day * ms_per_day"

text \<open>\<open>daysSinceLastPost\<close> (lines 183-185), from the two date strings.\<close>

definition daysSinceLastPost :: "int \<Rightarrow> int \<Rightarrow> int" where
  "daysSinceLastPost today lastPostDate =
     (date_getTime today - date_getTime lastPostDate) div ms_per_day"

text \<open>
  Lines 174-196 of \<open>createPost\<close>. \<open>now\<close> is the instant \<open>new Date()\<close> reads;
  \<open>last_post_date\<close> is the stored date as \<open>new Date\<close> parses it, \<open>None\<close> when the column
  is null.
\<close>

definition newStreakCount :: "int option \<Rightarrow> int \<Rightarrow> int \<Rightarrow> int" where
  "newStreakCount last_post_date streak now =
     (let today = toISODate now;
          lastPostDate = (case last_post_date of None \<Rightarrow> None | Some l \<Rightarrow> Some (toISODate l))
      in case lastPostDate of
           Some l \<Rightarrow>
             (let d = daysSinceLastPost today l
              in if d = 1 then streak + 1
                 else if d = 0 then streak
                 else 1)
         | None \<Rightarrow> 1)"

text \<open>The row of \<open>users\<close> that \<open>createPost\<close> selects.\<close>

record user_profile =
  profile_name :: string
  profile_avatar_url :: "string option"
  profile_streak_count :: int
  last_post_date :: "int option"

text \<open>The \<open>NewPost\<close> argument of \<open>createPost\<close>, as far as the function reads it.\<close>

record new_post =
  new_media_url :: string
  new_media_type :: string
  new_caption :: string

text \<open>The object inserted into \<open>posts\<close> (lines 201-209).\<close>

record post_insert =
  ins_username :: string
  ins_media_url :: string
  ins_media_type :: string
  ins_caption :: string
  ins_avatar_url :: string
  ins_user_id :: string
  ins_streak_count :: int

text \<open>
  The write requests that the mutations send to the backend. \<open>UpdateUser uid streak today\<close>
  is the update of \<open>users\<close> with \<open>streak_count\<close> and \<open>last_post_date\<close> (a calendar day);
  \<open>UpdateFavorite pid b\<close> is the update of \<open>posts\<close> with \<open>is_favorite\<close>.
\<close>

datatype request =
    InsertPost post_insert
  | InsertPostFamilies "(string \<times> string) list"
  | UpdateUser string int int
  | UpdateFavorite string bool

text \<open>What the backend answers to the requests of one \<open>createPost\<close> call.\<close>

record create_responses =
  create_auth_user :: "string option"
  profile_result :: "thrown + user_profile"
  post_result :: "thrown + post_row"
  family_links_error :: "thrown option"
  update_error :: "thrown option"

definition default_avatar :: string where
  "default_avatar =
     ''https://images.unsplash.com/photo-1535713875002-d1d0cf377fde?auto=format&fit=crop&w=100''"

text \<open>\<open>userProfile.avatar_url || default\<close>: null and the empty string are falsy.\<close>

definition avatar_or_default :: "string option \<Rightarrow> string" where
  "avatar_or_default a = (case a of None \<Rightarrow> default_avatar
                          | Some u \<Rightarrow> if u = [] then default_avatar else u)"

text \<open>The \<open>catch\<close> block of \<open>createPost\<close>: whatever was thrown, a new \<open>Error\<close> is thrown.\<close>

definition create_failed :: thrown where
  "create_failed = Error ''Failed to create post''"

text \<open>
  \<open>createPost\<close>: what the caller gets (the thrown error or the created row) and the
  write requests sent, in order. A request whose answer is an error has been sent.
\<close>

definition createPost ::
  "new_post \<Rightarrow> string list \<Rightarrow> int \<Rightarrow> create_responses \<Rightarrow> (thrown + post_row) \<times> request list" where
  "createPost p familyIds now resp =
     (case create_auth_user resp of
        None \<Rightarrow> (Inl create_failed, [])
      | Some uid \<Rightarrow>
          (case profile_result resp of
             Inl profileError \<Rightarrow> (Inl create_failed, [])
           | Inr userProfile \<Rightarrow>
               (let today = toISODate now;
                    n = newStreakCount (last_post_date userProfile)
                          (profile_streak_count userProfile) now;
                    w1 = InsertPost \<lparr>ins_username = profile_name userProfile,
                           ins_media_url = new_media_url p,
                           ins_media_type = new_media_type p,
                           ins_caption = new_caption p,
                           ins_avatar_url = avatar_or_default (profile_avatar_url userProfile),
                           ins_user_id = uid,
                           ins_streak_count = n\<rparr>
                in case post_result resp of
                     Inl postError \<Rightarrow> (Inl create_failed, [w1])
                   | Inr newPost \<Rightarrow>
                       (let w2 = InsertPostFamilies (map (\<lambda>f. (post_id newPost, f)) familyIds)
                        in case family_links_error resp of
                             Some familyError \<Rightarrow> (Inl create_failed, [w1, w2])
                           | None \<Rightarrow>
                               (let w3 = UpdateUser uid n today
                                in case update_error resp of
                                     Some updateError \<Rightarrow> (Inl create_failed, [w1, w2, w3])
                                   | None \<Rightarrow> (Inr newPost, [w1, w2, w3]))))))"

section \<open>Toggling a favourite\<close>

definition toggle_failed :: thrown where
  "toggle_failed = Error ''Failed to update favorite status''"

text \<open>
  Lines 246-252 of \<open>toggleFavorite\<close>, up to the point where the function waits for the
  backend. \<open>st\<close> is the state of the render whose closure is called: \<open>posts.find\<close>
  reads that render's \<open>posts\<close>. The result is the error thrown when the post is not
  found, or the update request sent together with the hook state as this call leaves it
  while the request is pending.
\<close>

definition toggleFavorite_pending :: "string \<Rightarrow> hook_state \<Rightarrow> thrown + (request \<times> hook_state)" where
  "toggleFavorite_pending postId st =
     (case find (\<lambda>p. post_id p = postId) (posts st) of
        None \<Rightarrow> Inl (Error ''Post not found'')
      | Some p \<Rightarrow> Inr (UpdateFavorite postId (\<not> is_favorite p), st))"

text \<open>The updater handed to \<open>setPosts\<close> (lines 256-262).\<close>

definition flip_favorite :: "string \<Rightarrow> post list \<Rightarrow> post list" where
  "flip_favorite postId prevPosts =
     map (\<lambda>p. if post_id p = postId then p\<lparr>is_favorite := \<not> is_favorite p\<rparr> else p) prevPosts"

text \<open>
  Lines 254-266 of \<open>toggleFavorite\<close>, from the backend's answer to the update on
  (\<open>None\<close>: no error). \<open>st\<close> is the hook state of that moment: the updater handed to
  \<open>setPosts\<close> is applied to the posts the state then has (\<open>prevPosts\<close>), not to those
  the call found its post in. The \<open>catch\<close> block replaces whatever was thrown by a new
  \<open>Error\<close>.
\<close>

definition toggleFavorite_resume ::
  "string \<Rightarrow> thrown option \<Rightarrow> hook_state \<Rightarrow> (thrown + unit) \<times> hook_state" where
  "toggleFavorite_resume postId write_error st =
     (case write_error of
        Some e \<Rightarrow> (Inl toggle_failed, st)
      | None \<Rightarrow> (Inr (), st\<lparr>posts := flip_favorite postId (posts st)\<rparr>))"

text \<open>
  One call of \<open>toggleFavorite\<close>: \<open>st_call\<close> is the state of the render whose closure is
  called, \<open>st_now\<close> the state when the backend's answer arrives (other calls may have
  changed it in between). The result is what the caller gets, the hook state afterwards
  and the requests sent. When the post is not found nothing is awaited.
\<close>

definition toggleFavorite ::
  "string \<Rightarrow> thrown option \<Rightarrow> hook_state \<Rightarrow> hook_state
     \<Rightarrow> (thrown + unit) \<times> hook_state \<times> request list" where
  "toggleFavorite postId write_error st_call st_now =
     (case toggleFavorite_pending postId st_call of
        Inl e \<Rightarrow> (Inl toggle_failed, st_call, [])
      | Inr (req, st') \<Rightarrow>
          (fst (toggleFavorite_resume postId write_error st_now),
           snd (toggleFavorite_resume postId write_error st_now), [req]))"

section \<open>The hook as an event-driven machine\<close>

text \<open>
  The hook instance: its \<open>familyId\<close> argument, its React state, the calls of
  \<open>fetchPosts\<close> that have started and not yet finished (the family id each was called
  with, in the order of the calls), and the calls of \<open>toggleFavorite\<close> whose update is
  pending (the post id of each). \<open>fetchPosts\<close> is asynchronous: it touches the state
  only after its last \<open>await\<close>, so a call is a start, which changes nothing, and a later
  settlement, which applies \<open>fetchPosts\<close> to the state of that moment. Likewise a call
  of \<open>toggleFavorite\<close> is a start, which looks the post up and sends the update, and a
  later settlement, which applies the updater to the posts of that moment.
\<close>

record engine =
  familyId :: "string option"
  hook :: hook_state
  in_flight :: "string list"
  toggles_in_flight :: "string list"

text \<open>\<open>if (familyId)\<close>: null and the empty string are falsy.\<close>

definition truthy_id :: "string option \<Rightarrow> string option" where
  "truthy_id fid = (case fid of None \<Rightarrow> None | Some f \<Rightarrow> if f = [] then None else Some f)"

definition start_fetchPosts :: "string \<Rightarrow> engine \<Rightarrow> engine" where
  "start_fetchPosts f e = e\<lparr>in_flight := in_flight e @ [f]\<rparr>"

text \<open>\<open>usePosts(familyId)\<close>: the initial state (lines 15-17) and the effect (lines 20-25).\<close>

definition initial_state :: hook_state where
  "initial_state = \<lparr>posts = [], loading = True, error = None\<rparr>"

definition usePosts :: "string option \<Rightarrow> engine" where
  "usePosts fid =
     (let e = \<lparr>familyId = fid, hook = initial_state, in_flight = [], toggles_in_flight = []\<rparr>
      in case truthy_id fid of None \<Rightarrow> e | Some f \<Rightarrow> start_fetchPosts f e)"

text \<open>
  The two \<open>postgres_changes\<close> handlers (lines 39-41 and 49-51) are the same function:
  \<open>() => { fetchPosts(familyId) }\<close>. They are registered only when \<open>familyId\<close> is truthy.
\<close>

definition on_change :: "engine \<Rightarrow> engine" where
  "on_change e = (case truthy_id (familyId e) of None \<Rightarrow> e | Some f \<Rightarrow> start_fetchPosts f e)"

text \<open>\<open>refreshPosts: () => familyId && fetchPosts(familyId)\<close>\<close>

definition refreshPosts :: "engine \<Rightarrow> engine" where
  "refreshPosts e = (case truthy_id (familyId e) of None \<Rightarrow> e | Some f \<Rightarrow> start_fetchPosts f e)"

text \<open>The \<open>i\<close>-th call in flight finishes, the backend having answered \<open>resp\<close>.\<close>

definition settle :: "nat \<Rightarrow> fetch_responses \<Rightarrow> engine \<Rightarrow> engine" where
  "settle i resp e =
     (if i < length (in_flight e)
      then e\<lparr>hook := fst (fetchPosts (in_flight e ! i) resp (hook e)),
             in_flight := take i (in_flight e) @ drop (Suc i) (in_flight e)\<rparr>
      else e)"

text \<open>
  \<open>toggleFavorite(postId)\<close> is called from the current render: the post is looked up in
  the posts of the current state; when it is found the update is sent and the call waits.
\<close>

definition start_toggleFavorite :: "string \<Rightarrow> engine \<Rightarrow> engine" where
  "start_toggleFavorite postId e =
     (case toggleFavorite_pending postId (hook e) of
        Inl err \<Rightarrow> e
      | Inr (req, st') \<Rightarrow> e\<lparr>hook := st', toggles_in_flight := toggles_in_flight e @ [postId]\<rparr>)"

text \<open>The \<open>i\<close>-th pending toggle gets the backend's answer to its update.\<close>

definition settle_toggle :: "nat \<Rightarrow> thrown option \<Rightarrow> engine \<Rightarrow> engine" where
  "settle_toggle i write_error e =
     (if i < length (toggles_in_flight e)
      then e\<lparr>hook := snd (toggleFavorite_resume (toggles_in_flight e ! i) write_error (hook e)),
             toggles_in_flight := take i (toggles_in_flight e) @ drop (Suc i) (toggles_in_flight e)\<rparr>
      else e)"

datatype event =
    Change
  | Refresh
  | Settle nat fetch_responses
  | ToggleFavorite string
  | SettleToggle nat "thrown option"

fun step :: "engine \<Rightarrow> event \<Rightarrow> engine" where
  "step e Change = on_change e"
| "step e Refresh = refreshPosts e"
| "step e (Settle i resp) = settle i resp e"
| "step e (ToggleFavorite postId) = start_toggleFavorite postId e"
| "step e (SettleToggle i write_error) = settle_toggle i write_error e"

definition run :: "engine \<Rightarrow> event list \<Rightarrow> engine" where
  "run e evs = foldl step e evs"

text \<open>Newest first: timestamps descending along the list.\<close>

definition newest_first :: "'a post_row_scheme list \<Rightarrow> bool" where
  "newest_first ps = sorted_wrt (\<lambda>a b. timestamp a \<ge> timestamp b) ps"

text \<open>
  The posts query asks for \<open>.order('timestamp', { ascending: false })\<close>: an answer of the
  backend is well ordered when its rows, if any, come newest first.
\<close>

definition ordered_response :: "fetch_responses \<Rightarrow> bool" where
  "ordered_response resp =
     (case posts_result resp of Inr (Some rows) \<Rightarrow> newest_first rows | _ \<Rightarrow> True)"

fun ordered_event :: "event \<Rightarrow> bool" where
  "ordered_event (Settle i resp) = ordered_response resp"
| "ordered_event _ = True"

section \<open>Example data\<close>

definition example_reaction :: "string \<Rightarrow> string \<Rightarrow> string \<Rightarrow> reaction" where
  "example_reaction i u k =
     \<lparr>reaction_id = i, reaction_user_id = u, reaction_type = k, emoji_type = None,
      comment = None, created_at = 0\<rparr>"

text \<open>The reactions \<open>[LIKE by A, LIKE by B, COMMENT by A]\<close>.\<close>

definition example_reactions :: "reaction list" where
  "example_reactions = [example_reaction ''r1'' ''A'' ''LIKE'', example_reaction ''r2'' ''B'' ''LIKE'',
                        example_reaction ''r3'' ''A'' ''COMMENT'']"

definition example_row :: "string \<Rightarrow> int \<Rightarrow> bool \<Rightarrow> reaction list option \<Rightarrow> post_row" where
  "example_row i t fav rs =
     \<lparr>post_id = i, username = ''ann'', media_url = ''m'', media_type = ''image'',
      caption = ''c'', avatar_url = ''a'', user_id = ''u1'', timestamp = t,
      is_favorite = fav, streak_count = 1, reactions = rs\<rparr>"

definition example_post :: "string \<Rightarrow> int \<Rightarrow> bool \<Rightarrow> post" where
  "example_post i t fav = process_post ''fam'' ''A'' (example_row i t fav None)"

definition example_feed :: "post list" where
  "example_feed = [example_post ''p4'' 40 False, example_post ''p3'' 30 True,
                   example_post ''p2'' 20 False, example_post ''p1'' 10 False]"

text \<open>The rows \<open>example_feed\<close> is built from.\<close>

definition example_rows :: "post_row list" where
  "example_rows = [example_row ''p4'' 40 False None, example_row ''p3'' 30 True None,
                   example_row ''p2'' 20 False None, example_row ''p1'' 10 False None]"

text \<open>A feed of three posts, two of them favourites, and the rows it is built from.\<close>

definition favourite_rows :: "post_row list" where
  "favourite_rows = [example_row ''p3'' 30 True None, example_row ''p2'' 20 True None,
                     example_row ''p1'' 10 False None]"

definition favourite_feed :: "post list" where
  "favourite_feed = [example_post ''p3'' 30 True, example_post ''p2'' 20 True,
                     example_post ''p1'' 10 False]"

text \<open>Answers of the backend to a hydration by user \<open>A\<close> that succeed.\<close>

definition example_response :: "int option \<Rightarrow> post_row list \<Rightarrow> fetch_responses" where
  "example_response lim rows =
     \<lparr>auth_user = Some ''A'', family_result = Inr lim, posts_result = Inr (Some rows)\<rparr>"

text \<open>
  Thirty-one rows, none a favourite, newest first: row \<open>i\<close> has timestamp \<open>i\<close> and an id
  of \<open>i + 1\<close> letters, for \<open>i\<close> from 30 down to 0.
\<close>

definition numbered_row :: "nat \<Rightarrow> post_row" where
  "numbered_row i = example_row (replicate (Suc i) CHR ''x'') (int i) False None"

definition thirty_one_rows :: "post_row list" where
  "thirty_one_rows = map numbered_row (rev [0..<31])"

text \<open>An answer of the backend to a hydration when nobody is signed in.\<close>

definition unauthenticated :: fetch_responses where
  "unauthenticated = \<lparr>auth_user = None, family_result = Inr None, posts_result = Inr None\<rparr>"

text \<open>A hook state that shows \<open>example_feed\<close>.\<close>

definition ready_state :: hook_state where
  "ready_state = \<lparr>posts = example_feed, loading = False, error = None\<rparr>"

text \<open>\<open>ready_state\<close> after \<open>p4\<close> has been made a favourite.\<close>

definition toggled_state :: hook_state where
  "toggled_state = ready_state\<lparr>posts := flip_favorite ''p4'' (posts ready_state)\<rparr>"

text \<open>
  A user who posted the day before with a streak of 4, a draft, and answers of the
  backend to \<open>createPost\<close> that succeed up to the last write, whose error is a parameter.
\<close>

definition example_profile :: user_profile where
  "example_profile =
     \<lparr>profile_name = ''ann'', profile_avatar_url = Some ''a'', profile_streak_count = 4,
      last_post_date = Some 1699900000000\<rparr>"

definition example_draft :: new_post where
  "example_draft = \<lparr>new_media_url = ''m'', new_media_type = ''image'', new_caption = ''c''\<rparr>"

definition example_create_responses :: "thrown option \<Rightarrow> create_responses" where
  "example_create_responses upd =
     \<lparr>create_auth_user = Some ''u1'', profile_result = Inr example_profile,
      post_result = Inr (example_row ''p5'' 1700000000000 False None),
      family_links_error = None, update_error = upd\<rparr>"

lemmas example_defs = example_feed_def example_post_def example_row_def example_reaction_def
  process_post_def reactions_or_empty_def post_row.defs post.defs newest_first_def

section \<open>Aggregate builder\<close>

lemma example_post_fields:
  "post_id (example_post i t fav) = i \<and> timestamp (example_post i t fav) = t
   \<and> is_favorite (example_post i t fav) = fav"
  by (simp add: example_defs)

lemma length_filter_count_list:
  "length (filter (\<lambda>r. f r = k) rs) = count_list (map f rs) k"
  by (induction rs) auto

text \<open>
  C4. For every post row, family id and acting user id, the processed post has
  \<open>likes_count\<close> equal to the number of reaction rows of type LIKE and
  \<open>comments_count\<close> equal to the number of reaction rows of type COMMENT, each row counted
  once (occurrences in the list of reaction types, nothing deduplicated);
  \<open>user_has_liked\<close> holds iff some LIKE reaction carries the acting user's id; a post
  whose reactions are missing or empty has both counts zero and the flag false. The
  transformation is a pure function of the row: it leaves every stored field of the row
  as it was.
\<close>

theorem aggregate_builder_counts:
  "likes_count (process_post fid uid p)
     = count_list (map reaction_type (reactions_or_empty p)) ''LIKE''
   \<and> comments_count (process_post fid uid p)
     = count_list (map reaction_type (reactions_or_empty p)) ''COMMENT''
   \<and> (user_has_liked (process_post fid uid p)
        = (\<exists>r \<in> set (reactions_or_empty p). reaction_type r = ''LIKE'' \<and> reaction_user_id r = uid))
   \<and> (reactions_or_empty p = [] \<longrightarrow>
        likes_count (process_post fid uid p) = 0
        \<and> comments_count (process_post fid uid p) = 0
        \<and> \<not> user_has_liked (process_post fid uid p))
   \<and> post_id (process_post fid uid p) = post_id p
   \<and> timestamp (process_post fid uid p) = timestamp p
   \<and> is_favorite (process_post fid uid p) = is_favorite p
   \<and> streak_count (process_post fid uid p) = streak_count p
   \<and> reactions (process_post fid uid p) = Some (reactions_or_empty p)"
  by (auto simp: process_post_def Let_def post_row.defs post.defs list_ex_iff
        length_filter_count_list)

theorem aggregate_builder_counts_witness:
  "reactions_or_empty (example_row ''p'' 5 False None) = []
   \<and> likes_count (process_post ''fam'' ''A'' (example_row ''p'' 5 False None)) = 0
   \<and> comments_count (process_post ''fam'' ''A'' (example_row ''p'' 5 False None)) = 0
   \<and> \<not> user_has_liked (process_post ''fam'' ''A'' (example_row ''p'' 5 False None))
   \<and> likes_count (process_post ''fam'' ''A'' (example_row ''p'' 5 False (Some example_reactions))) = 2
   \<and> comments_count (process_post ''fam'' ''A'' (example_row ''p'' 5 False (Some example_reactions))) = 1
   \<and> user_has_liked (process_post ''fam'' ''A'' (example_row ''p'' 5 False (Some example_reactions)))
   \<and> \<not> user_has_liked (process_post ''fam'' ''C'' (example_row ''p'' 5 False (Some example_reactions)))"
proof -
  have e: "reactions_or_empty (example_row ''p'' 5 False None) = []"
    by (simp add: reactions_or_empty_def example_row_def)
  have r: "reactions_or_empty (example_row ''p'' 5 False (Some example_reactions)) = example_reactions"
    by (simp add: reactions_or_empty_def example_row_def)
  show ?thesis
    using aggregate_builder_counts[of "''fam''" "''A''" "example_row ''p'' 5 False None"]
      aggregate_builder_counts[of "''fam''" "''A''" "example_row ''p'' 5 False (Some example_reactions)"]
      aggregate_builder_counts[of "''fam''" "''C''" "example_row ''p'' 5 False (Some example_reactions)"]
    unfolding e r
    by (simp add: example_reactions_def example_reaction_def)
qed

section \<open>Retention enforcer\<close>

lemma list_ex_post_id:
  assumes "distinct (map post_id ps)" "set del \<subseteq> set ps" "p \<in> set ps"
  shows "list_ex (\<lambda>d. post_id d = post_id p) del \<longleftrightarrow> p \<in> set del"
proof -
  have inj: "inj_on post_id (set ps)" using assms(1) by (simp add: distinct_map)
  show ?thesis
  proof
    assume "list_ex (\<lambda>d. post_id d = post_id p) del"
    then obtain d where d: "d \<in> set del" "post_id d = post_id p" by (auto simp: list_ex_iff)
    then have "d \<in> set ps" using assms(2) by auto
    with inj d(2) assms(3) have "d = p" by (auto dest: inj_onD)
    with d(1) show "p \<in> set del" by simp
  next
    assume "p \<in> set del"
    then show "list_ex (\<lambda>d. post_id d = post_id p) del" by (auto simp: list_ex_iff)
  qed
qed

lemma filter_by_id_eq:
  assumes "distinct (map post_id ps)" "set del \<subseteq> set ps"
  shows "filter (\<lambda>p. \<not> list_ex (\<lambda>d. post_id d = post_id p) del) ps = filter (\<lambda>p. p \<notin> set del) ps"
  by (rule filter_cong) (simp_all add: list_ex_post_id[OF assms])

lemma length_filter_not_in:
  assumes "distinct ps" "distinct del" "set del \<subseteq> set ps"
  shows "length (filter (\<lambda>p. p \<notin> set del) ps) = length ps - length del"
proof -
  have "distinct (filter (\<lambda>p. p \<notin> set del) ps)" using assms(1) by simp
  then have "length (filter (\<lambda>p. p \<notin> set del) ps) = card (set ps - set del)"
    by (metis distinct_card set_filter set_diff_eq)
  also have "\<dots> = card (set ps) - card (set del)"
    using assms(3) by (simp add: card_Diff_subset)
  finally show ?thesis using assms(1,2) by (simp add: distinct_card)
qed

lemma take_le_drop_sort_key:
  assumes "d \<in> set (take n (sort_key f xs))" "k \<in> set (drop n (sort_key f xs))"
  shows "f d \<le> f k"
proof -
  have "sorted (map f (take n (sort_key f xs) @ drop n (sort_key f xs)))"
    by simp
  then show ?thesis using assms unfolding map_append sorted_append by auto
qed

lemma newest_first_filter: "newest_first ps \<Longrightarrow> newest_first (filter P ps)"
  unfolding newest_first_def by (rule sorted_wrt_filter)

lemma retention_no_excess:
  "int (length ps) \<le> limit \<Longrightarrow> retention ps limit = ([], ps)"
  by (simp add: retention_def)

lemma retention_evicts:
  assumes "limit < int (length ps)"
    and "int (length ps) - limit \<le> int (length (filter (\<lambda>p. \<not> is_favorite p) ps))"
  shows "retention ps limit =
           (take (nat (int (length ps) - limit)) (sort_key timestamp (filter (\<lambda>p. \<not> is_favorite p) ps)),
            filter (\<lambda>p. \<not> list_ex (\<lambda>d. post_id d = post_id p)
                 (take (nat (int (length ps) - limit))
                    (sort_key timestamp (filter (\<lambda>p. \<not> is_favorite p) ps)))) ps)"
  using assms by (simp add: retention_def Let_def)

text \<open>
  C1. For every processed feed whose posts have pairwise different ids and every positive
  limit: if the number of posts is at most the limit, no post is selected for removal and
  the published list is the whole feed; if the excess (count minus limit) is positive and at
  least that many posts are not favourites, the posts selected are the first \<open>excess\<close>
  non-favourites in ascending order of timestamp, exactly \<open>excess\<close> of them, all posts of
  the feed, none a favourite, each no newer than every non-favourite that is kept; the
  published list is the feed without exactly those posts, in the feed's order, it has
  \<open>limit\<close> posts, and it is newest first when the feed is.
\<close>

theorem retention_enforcer:
  assumes ids: "distinct (map post_id ps)" and pos: "0 < limit"
  shows "(int (length ps) \<le> limit \<longrightarrow> retention ps limit = ([], ps))
       \<and> (limit < int (length ps)
            \<and> int (length ps) - limit \<le> int (length (filter (\<lambda>p. \<not> is_favorite p) ps)) \<longrightarrow>
          (let del = fst (retention ps limit); kept = snd (retention ps limit);
               excess = nat (int (length ps) - limit)
           in del = take excess (sort_key timestamp (filter (\<lambda>p. \<not> is_favorite p) ps))
            \<and> length del = excess
            \<and> set del \<subseteq> set ps
            \<and> (\<forall>d \<in> set del. \<not> is_favorite d)
            \<and> sorted (map timestamp del)
            \<and> (\<forall>d \<in> set del. \<forall>k \<in> set kept. \<not> is_favorite k \<longrightarrow> timestamp d \<le> timestamp k)
            \<and> kept = filter (\<lambda>p. p \<notin> set del) ps
            \<and> int (length kept) = limit
            \<and> (newest_first ps \<longrightarrow> newest_first kept)))"
proof (intro conjI impI)
  assume "int (length ps) \<le> limit"
  then show "retention ps limit = ([], ps)" by (rule retention_no_excess)
next
  assume h: "limit < int (length ps)
     \<and> int (length ps) - limit \<le> int (length (filter (\<lambda>p. \<not> is_favorite p) ps))"
  define nf where "nf = sort_key timestamp (filter (\<lambda>p. \<not> is_favorite p) ps)"
  define n where "n = nat (int (length ps) - limit)"
  define del where "del = take n nf"
  define kept where "kept = filter (\<lambda>p. \<not> list_ex (\<lambda>d. post_id d = post_id p) del) ps"
  have ret: "retention ps limit = (del, kept)"
    using retention_evicts[of limit ps] h by (simp add: nf_def n_def del_def kept_def)
  have set_nf: "set nf = {p \<in> set ps. \<not> is_favorite p}" by (auto simp: nf_def)
  have len_nf: "length nf = length (filter (\<lambda>p. \<not> is_favorite p) ps)" by (simp add: nf_def)
  have n_le: "n \<le> length nf" using h unfolding n_def len_nf by linarith
  have dps: "distinct ps" using ids by (simp add: distinct_map)
  have dnf: "distinct nf" using dps by (simp add: nf_def)
  have len_del: "length del = n" using n_le by (simp add: del_def)
  have del_nf: "set del \<subseteq> set nf" by (auto simp: del_def dest: in_set_takeD)
  have del_ps: "set del \<subseteq> set ps" using del_nf set_nf by auto
  have del_nonfav: "\<forall>d \<in> set del. \<not> is_favorite d" using del_nf set_nf by auto
  have sorted_del: "sorted (map timestamp del)"
    unfolding del_def nf_def take_map[symmetric] by (rule sorted_wrt_take) simp
  have kept_eq: "kept = filter (\<lambda>p. p \<notin> set del) ps"
    unfolding kept_def by (rule filter_by_id_eq[OF ids del_ps])
  have ddel: "distinct del" using dnf by (simp add: del_def)
  have len_kept: "int (length kept) = limit"
    using length_filter_not_in[OF dps ddel del_ps] len_del h pos
    by (simp add: kept_eq n_def)
  have older: "\<forall>d \<in> set del. \<forall>k \<in> set kept. \<not> is_favorite k \<longrightarrow> timestamp d \<le> timestamp k"
  proof (intro ballI impI)
    fix d k assume d: "d \<in> set del" and k: "k \<in> set kept" and nfk: "\<not> is_favorite k"
    from k have "k \<in> set ps" "k \<notin> set del" by (auto simp: kept_eq)
    with nfk have "k \<in> set nf" by (simp add: set_nf)
    then have "k \<in> set (take n nf) \<union> set (drop n nf)"
      by (metis append_take_drop_id set_append)
    with \<open>k \<notin> set del\<close> have "k \<in> set (drop n nf)" by (simp add: del_def)
    with d show "timestamp d \<le> timestamp k"
      unfolding del_def nf_def by (rule take_le_drop_sort_key)
  qed
  have nfk: "newest_first ps \<longrightarrow> newest_first kept"
    by (simp add: kept_eq newest_first_filter)
  show "let del = fst (retention ps limit); kept = snd (retention ps limit);
               excess = nat (int (length ps) - limit)
           in del = take excess (sort_key timestamp (filter (\<lambda>p. \<not> is_favorite p) ps))
            \<and> length del = excess
            \<and> set del \<subseteq> set ps
            \<and> (\<forall>d \<in> set del. \<not> is_favorite d)
            \<and> sorted (map timestamp del)
            \<and> (\<forall>d \<in> set del. \<forall>k \<in> set kept. \<not> is_favorite k \<longrightarrow> timestamp d \<le> timestamp k)
            \<and> kept = filter (\<lambda>p. p \<notin> set del) ps
            \<and> int (length kept) = limit
            \<and> (newest_first ps \<longrightarrow> newest_first kept)"
    unfolding ret Let_def fst_conv snd_conv n_def[symmetric] nf_def[symmetric]
    using del_def len_del del_ps del_nonfav sorted_del older kept_eq len_kept nfk
    by (intro conjI)
qed

theorem retention_enforcer_witness:
  "distinct (map post_id example_feed) \<and> (0::int) < 2 \<and> newest_first example_feed
   \<and> retention example_feed 4 = ([], example_feed)
   \<and> retention example_feed 2
       = ([example_post ''p1'' 10 False, example_post ''p2'' 20 False],
          [example_post ''p4'' 40 False, example_post ''p3'' 30 True])"
proof -
  have d: "distinct (map post_id example_feed)" by (simp add: example_defs)
  have n: "newest_first example_feed" by (simp add: example_defs)
  have l: "length example_feed = 4" by (simp add: example_feed_def)
  have f: "filter (\<lambda>p. \<not> is_favorite p) example_feed
            = [example_post ''p4'' 40 False, example_post ''p2'' 20 False, example_post ''p1'' 10 False]"
    by (simp add: example_defs)
  have s: "sort_key timestamp [example_post ''p4'' 40 False, example_post ''p2'' 20 False, example_post ''p1'' 10 False]
       = [example_post ''p1'' 10 False, example_post ''p2'' 20 False, example_post ''p4'' 40 False]"
    by (simp add: example_defs)
  have m: "filter (\<lambda>p. p \<notin> set [example_post ''p1'' 10 False, example_post ''p2'' 20 False]) example_feed
       = [example_post ''p4'' 40 False, example_post ''p3'' 30 True]"
    by (simp add: example_defs)
  have a: "retention example_feed 4 = ([], example_feed)"
    using retention_enforcer[OF d, of 4] l by simp
  have pos: "(0::int) < 2" by simp
  have h: "2 < int (length example_feed)
     \<and> int (length example_feed) - 2 \<le> int (length (filter (\<lambda>p. \<not> is_favorite p) example_feed))"
    unfolding f l by simp
  have e: "nat (int (length example_feed) - 2) = 2" unfolding l by simp
  from retention_enforcer[OF d pos] h
  have "let del = fst (retention example_feed 2); kept = snd (retention example_feed 2);
               excess = nat (int (length example_feed) - 2)
           in del = take excess (sort_key timestamp (filter (\<lambda>p. \<not> is_favorite p) example_feed))
            \<and> length del = excess
            \<and> set del \<subseteq> set example_feed
            \<and> (\<forall>d \<in> set del. \<not> is_favorite d)
            \<and> sorted (map timestamp del)
            \<and> (\<forall>d \<in> set del. \<forall>k \<in> set kept. \<not> is_favorite k \<longrightarrow> timestamp d \<le> timestamp k)
            \<and> kept = filter (\<lambda>p. p \<notin> set del) example_feed
            \<and> int (length kept) = 2
            \<and> (newest_first example_feed \<longrightarrow> newest_first kept)"
    by blast
  then have b1: "fst (retention example_feed 2)
        = take 2 (sort_key timestamp (filter (\<lambda>p. \<not> is_favorite p) example_feed))"
    and b2: "snd (retention example_feed 2)
        = filter (\<lambda>p. p \<notin> set (fst (retention example_feed 2))) example_feed"
    unfolding Let_def e by blast+
  have b3: "fst (retention example_feed 2) = [example_post ''p1'' 10 False, example_post ''p2'' 20 False]"
    unfolding b1 f s by simp
  have b4: "snd (retention example_feed 2) = [example_post ''p4'' 40 False, example_post ''p3'' 30 True]"
    unfolding b2 b3 m by simp
  have b: "retention example_feed 2
       = ([example_post ''p1'' 10 False, example_post ''p2'' 20 False],
          [example_post ''p4'' 40 False, example_post ''p3'' 30 True])"
    using b3 b4 by (simp add: prod_eq_iff)
  show ?thesis using d n a b by simp
qed

section \<open>Favourites are never evicted\<close>

lemma fetchPosts_ok:
  assumes "auth_user resp = Some uid" "family_result resp = Inr lim" "posts_result resp = Inr data"
  shows "fetchPosts f resp st =
           (st\<lparr>posts := snd (retention (processedPosts f uid data) (photoLimit lim)), loading := False\<rparr>,
            map post_id (fst (retention (processedPosts f uid data) (photoLimit lim))))"
  using assms by (simp add: fetchPosts_def Let_def)

lemma favorites_exceed_iff:
  "(int (length (filter (\<lambda>p. \<not> is_favorite p) ps)) < int (length ps) - limit)
     = (limit < int (length (filter is_favorite ps)))"
  using sum_length_filter_compl[of is_favorite ps] by linarith

text \<open>
  C2. For every processed feed and every limit (positive or not) such that fewer posts are
  non-favourites than the excess \<open>count - limit\<close>, or, which is the same, such that the
  favourites alone exceed the limit: both conditions hold, no post is selected for
  removal, not even a non-favourite, the published list is the whole feed and so is
  longer than the limit; a hydration whose three requests succeed then sends no delete
  request and publishes every processed post.
\<close>

theorem favorites_inviolable:
  assumes "int (length (filter (\<lambda>p. \<not> is_favorite p) ps)) < int (length ps) - limit
           \<or> limit < int (length (filter is_favorite ps))"
  shows "retention ps limit = ([], ps)
       \<and> int (length (filter (\<lambda>p. \<not> is_favorite p) ps)) < int (length ps) - limit
       \<and> limit < int (length (filter is_favorite ps))
       \<and> limit < int (length (snd (retention ps limit)))
       \<and> (auth_user resp = Some uid \<and> family_result resp = Inr lim \<and> posts_result resp = Inr data
            \<and> processedPosts f uid data = ps \<and> photoLimit lim = limit
          \<longrightarrow> fetchPosts f resp st = (st\<lparr>posts := ps, loading := False\<rparr>, []))"
proof -
  have a: "int (length (filter (\<lambda>p. \<not> is_favorite p) ps)) < int (length ps) - limit"
    using assms favorites_exceed_iff[of ps limit] by blast
  have r: "retention ps limit = ([], ps)"
    using a by (simp add: retention_def Let_def)
  have f: "limit < int (length (filter is_favorite ps))"
    using a by (simp add: favorites_exceed_iff)
  have l: "limit < int (length ps)"
    using a by linarith
  have p: "snd (retention ps limit) = ps" by (simp add: r)
  have "auth_user resp = Some uid \<and> family_result resp = Inr lim \<and> posts_result resp = Inr data
            \<and> processedPosts f uid data = ps \<and> photoLimit lim = limit
          \<longrightarrow> fetchPosts f resp st = (st\<lparr>posts := ps, loading := False\<rparr>, [])"
  proof
    assume h: "auth_user resp = Some uid \<and> family_result resp = Inr lim \<and> posts_result resp = Inr data
            \<and> processedPosts f uid data = ps \<and> photoLimit lim = limit"
    then have "fetchPosts f resp st =
           (st\<lparr>posts := snd (retention (processedPosts f uid data) (photoLimit lim)), loading := False\<rparr>,
            map post_id (fst (retention (processedPosts f uid data) (photoLimit lim))))"
      by (simp add: fetchPosts_ok[of resp uid lim data f st])
    then show "fetchPosts f resp st = (st\<lparr>posts := ps, loading := False\<rparr>, [])"
      using h by (simp add: r)
  qed
  then show ?thesis
    unfolding p using r a f l by (intro conjI)
qed

theorem favorites_inviolable_witness:
  "int (length (filter (\<lambda>p. \<not> is_favorite p) favourite_feed)) < int (length favourite_feed) - 1
   \<and> retention favourite_feed 1 = ([], favourite_feed)
   \<and> (1::int) < int (length (filter is_favorite favourite_feed))
   \<and> fetchPosts ''fam'' (example_response (Some 1) favourite_rows) initial_state
        = (initial_state\<lparr>posts := favourite_feed, loading := False\<rparr>, [])"
proof -
  have h: "int (length (filter (\<lambda>p. \<not> is_favorite p) favourite_feed)) < int (length favourite_feed) - 1"
    by (simp add: favourite_feed_def example_defs)
  have p: "processedPosts ''fam'' ''A'' (Some favourite_rows) = favourite_feed"
    by (simp add: processedPosts_def favourite_feed_def favourite_rows_def example_post_def)
  have l: "photoLimit (Some 1) = 1" by (simp add: photoLimit_def)
  have r: "auth_user (example_response (Some 1) favourite_rows) = Some ''A''
        \<and> family_result (example_response (Some 1) favourite_rows) = Inr (Some 1)
        \<and> posts_result (example_response (Some 1) favourite_rows) = Inr (Some favourite_rows)"
    by (simp add: example_response_def)
  show ?thesis
    using favorites_inviolable[OF disjI1, OF h, of "example_response (Some 1) favourite_rows" "''A''" "Some 1"
        "Some favourite_rows" "''fam''" initial_state] h p l r
    by simp
qed

section \<open>Default photo limit\<close>

lemma retention_evicts_facts:
  assumes ids: "distinct (map post_id ps)"
    and gt: "limit < int (length ps)"
    and enough: "int (length ps) - limit \<le> int (length (filter (\<lambda>p. \<not> is_favorite p) ps))"
    and nonneg: "0 \<le> limit"
  shows "fst (retention ps limit)
           = take (nat (int (length ps) - limit)) (sort_key timestamp (filter (\<lambda>p. \<not> is_favorite p) ps))
       \<and> snd (retention ps limit) = filter (\<lambda>p. p \<notin> set (fst (retention ps limit))) ps
       \<and> int (length (snd (retention ps limit))) = limit
       \<and> int (length (fst (retention ps limit))) = int (length ps) - limit"
proof -
  define del where
    "del = take (nat (int (length ps) - limit)) (sort_key timestamp (filter (\<lambda>p. \<not> is_favorite p) ps))"
  have ret: "retention ps limit
      = (del, filter (\<lambda>p. \<not> list_ex (\<lambda>d. post_id d = post_id p) del) ps)"
    unfolding del_def by (rule retention_evicts[OF gt enough])
  have sub: "set del \<subseteq> set ps"
    by (auto simp: del_def dest: in_set_takeD)
  have dps: "distinct ps" using ids by (simp add: distinct_map)
  have ddel: "distinct del" using dps by (simp add: del_def)
  have len: "length del = nat (int (length ps) - limit)"
    using enough unfolding del_def by simp
  have kept: "snd (retention ps limit) = filter (\<lambda>p. p \<notin> set del) ps"
    unfolding ret snd_conv by (rule filter_by_id_eq[OF ids sub])
  have l: "int (length (filter (\<lambda>p. p \<notin> set del) ps)) = limit"
    using length_filter_not_in[OF dps ddel sub] len gt nonneg by simp
  have f: "fst (retention ps limit) = del" by (simp add: ret)
  show ?thesis
    unfolding f kept using l len gt by (simp add: del_def)
qed

text \<open>
  C10. A stored \<open>slideshow_photo_limit\<close> that is null, undefined or 0 gives the photo limit
  30, and a hydration with such a stored limit enforces the limit 30: it publishes and
  deletes what the retention with limit 30 selects. With at most 30 posts it publishes
  them all and deletes nothing; with more than 30 posts, pairwise different ids and at
  least \<open>count - 30\<close> non-favourites it deletes the \<open>count - 30\<close> oldest non-favourites and
  publishes the other posts, 30 of them. It does exactly what a hydration with a stored
  limit of 30 does.
\<close>

theorem default_photo_limit:
  "photoLimit None = 30 \<and> photoLimit (Some 0) = 30
   \<and> fetchPosts f (resp\<lparr>family_result := Inr None\<rparr>) st
       = fetchPosts f (resp\<lparr>family_result := Inr (Some 30)\<rparr>) st
   \<and> fetchPosts f (resp\<lparr>family_result := Inr (Some 0)\<rparr>) st
       = fetchPosts f (resp\<lparr>family_result := Inr (Some 30)\<rparr>) st
   \<and> (auth_user resp = Some uid \<and> posts_result resp = Inr data
        \<and> (family_result resp = Inr None \<or> family_result resp = Inr (Some 0))
        \<and> processedPosts f uid data = ps \<longrightarrow>
        fetchPosts f resp st
          = (st\<lparr>posts := snd (retention ps 30), loading := False\<rparr>, map post_id (fst (retention ps 30)))
        \<and> (length ps \<le> 30 \<longrightarrow> fetchPosts f resp st = (st\<lparr>posts := ps, loading := False\<rparr>, []))
        \<and> (30 < length ps \<and> length ps - 30 \<le> length (filter (\<lambda>p. \<not> is_favorite p) ps)
             \<and> distinct (map post_id ps) \<longrightarrow>
            snd (fetchPosts f resp st)
              = map post_id (take (length ps - 30)
                  (sort_key timestamp (filter (\<lambda>p. \<not> is_favorite p) ps)))
            \<and> posts (fst (fetchPosts f resp st))
              = filter (\<lambda>p. p \<notin> set (take (length ps - 30)
                  (sort_key timestamp (filter (\<lambda>p. \<not> is_favorite p) ps)))) ps
            \<and> length (posts (fst (fetchPosts f resp st))) = 30))"
proof -
  have a: "photoLimit None = 30 \<and> photoLimit (Some 0) = 30"
    by (simp add: photoLimit_def)
  have b: "fetchPosts f (resp\<lparr>family_result := Inr None\<rparr>) st
       = fetchPosts f (resp\<lparr>family_result := Inr (Some 30)\<rparr>) st
   \<and> fetchPosts f (resp\<lparr>family_result := Inr (Some 0)\<rparr>) st
       = fetchPosts f (resp\<lparr>family_result := Inr (Some 30)\<rparr>) st"
    by (simp add: photoLimit_def fetchPosts_def split: option.split sum.split)
  have c: "fetchPosts f resp st
          = (st\<lparr>posts := snd (retention ps 30), loading := False\<rparr>, map post_id (fst (retention ps 30)))
        \<and> (length ps \<le> 30 \<longrightarrow> fetchPosts f resp st = (st\<lparr>posts := ps, loading := False\<rparr>, []))
        \<and> (30 < length ps \<and> length ps - 30 \<le> length (filter (\<lambda>p. \<not> is_favorite p) ps)
             \<and> distinct (map post_id ps) \<longrightarrow>
            snd (fetchPosts f resp st)
              = map post_id (take (length ps - 30)
                  (sort_key timestamp (filter (\<lambda>p. \<not> is_favorite p) ps)))
            \<and> posts (fst (fetchPosts f resp st))
              = filter (\<lambda>p. p \<notin> set (take (length ps - 30)
                  (sort_key timestamp (filter (\<lambda>p. \<not> is_favorite p) ps)))) ps
            \<and> length (posts (fst (fetchPosts f resp st))) = 30)"
    if h: "auth_user resp = Some uid \<and> posts_result resp = Inr data
        \<and> (family_result resp = Inr None \<or> family_result resp = Inr (Some 0))
        \<and> processedPosts f uid data = ps"
  proof -
    from h obtain lim where lim: "family_result resp = Inr lim" "photoLimit lim = 30"
      using a by auto
    have fp: "fetchPosts f resp st
          = (st\<lparr>posts := snd (retention ps 30), loading := False\<rparr>, map post_id (fst (retention ps 30)))"
      using fetchPosts_ok[of resp uid lim data f st] h lim by simp
    have small: "fetchPosts f resp st = (st\<lparr>posts := ps, loading := False\<rparr>, [])"
      if "length ps \<le> 30"
      unfolding fp using retention_no_excess[of ps 30] that by simp
    have big: "snd (fetchPosts f resp st)
              = map post_id (take (length ps - 30)
                  (sort_key timestamp (filter (\<lambda>p. \<not> is_favorite p) ps)))
            \<and> posts (fst (fetchPosts f resp st))
              = filter (\<lambda>p. p \<notin> set (take (length ps - 30)
                  (sort_key timestamp (filter (\<lambda>p. \<not> is_favorite p) ps)))) ps
            \<and> length (posts (fst (fetchPosts f resp st))) = 30"
      if g: "30 < length ps \<and> length ps - 30 \<le> length (filter (\<lambda>p. \<not> is_favorite p) ps)
             \<and> distinct (map post_id ps)"
    proof -
      have n: "nat (int (length ps) - 30) = length ps - 30" by simp
      have e: "int (length ps) - 30 \<le> int (length (filter (\<lambda>p. \<not> is_favorite p) ps))"
        using g by linarith
      have gt: "(30::int) < int (length ps)" using g by simp
      have ids: "distinct (map post_id ps)" using g by simp
      have nn: "(0::int) \<le> 30" by simp
      note R = retention_evicts_facts[OF ids gt e nn, unfolded n]
      have r1: "fst (retention ps 30)
           = take (length ps - 30) (sort_key timestamp (filter (\<lambda>p. \<not> is_favorite p) ps))"
        using R by (rule conjunct1)
      have r2: "snd (retention ps 30) = filter (\<lambda>p. p \<notin> set (fst (retention ps 30))) ps"
        using R by blast
      have "int (length (snd (retention ps 30))) = 30"
        using R by blast
      then have r3: "length (snd (retention ps 30)) = 30" by linarith
      have s1: "snd (fetchPosts f resp st)
              = map post_id (take (length ps - 30)
                  (sort_key timestamp (filter (\<lambda>p. \<not> is_favorite p) ps)))"
        unfolding fp snd_conv r1 by (rule refl)
      have s2: "posts (fst (fetchPosts f resp st)) = snd (retention ps 30)"
        unfolding fp by simp
      have s3: "posts (fst (fetchPosts f resp st))
              = filter (\<lambda>p. p \<notin> set (take (length ps - 30)
                  (sort_key timestamp (filter (\<lambda>p. \<not> is_favorite p) ps)))) ps"
        unfolding s2 using r2 unfolding r1 by (rule trans) (rule refl)
      have s4: "length (posts (fst (fetchPosts f resp st))) = 30"
        unfolding s2 by (rule r3)
      show ?thesis using s1 s3 s4 by (intro conjI)
    qed
    show ?thesis using fp small big by blast
  qed
  show ?thesis using a b c by blast
qed

lemma thirty_one_length: "length (processedPosts ''fam'' ''A'' (Some thirty_one_rows)) = 31"
  by (simp add: processedPosts_def thirty_one_rows_def)

lemma thirty_one_nonfav:
  "length (filter (\<lambda>p. \<not> is_favorite p) (processedPosts ''fam'' ''A'' (Some thirty_one_rows))) = 31"
  by code_simp

lemma thirty_one_distinct: "distinct (map post_id (processedPosts ''fam'' ''A'' (Some thirty_one_rows)))"
  by code_simp

lemma thirty_one_oldest:
  "map post_id (take 1 (sort_key timestamp (filter (\<lambda>p. \<not> is_favorite p)
     (processedPosts ''fam'' ''A'' (Some thirty_one_rows))))) = [''x'']"
  by code_simp

theorem default_photo_limit_witness:
  "length (processedPosts ''fam'' ''A'' (Some thirty_one_rows)) = 31
   \<and> distinct (map post_id (processedPosts ''fam'' ''A'' (Some thirty_one_rows)))
   \<and> family_result (example_response None thirty_one_rows) = Inr None
   \<and> snd (fetchPosts ''fam'' (example_response None thirty_one_rows) initial_state) = [''x'']
   \<and> length (posts (fst (fetchPosts ''fam'' (example_response None thirty_one_rows) initial_state))) = 30
   \<and> family_result (example_response (Some 0) thirty_one_rows) = Inr (Some 0)
   \<and> snd (fetchPosts ''fam'' (example_response (Some 0) thirty_one_rows) initial_state) = [''x'']
   \<and> length (posts (fst (fetchPosts ''fam'' (example_response (Some 0) thirty_one_rows) initial_state))) = 30
   \<and> length (processedPosts ''fam'' ''A'' (Some favourite_rows)) = 3
   \<and> fetchPosts ''fam'' (example_response (Some 0) favourite_rows) initial_state
       = (initial_state\<lparr>posts := favourite_feed, loading := False\<rparr>, [])"
proof -
  have r: "auth_user (example_response lim rows) = Some ''A''
        \<and> family_result (example_response lim rows) = Inr lim
        \<and> posts_result (example_response lim rows) = Inr (Some rows)" for lim rows
    by (simp add: example_response_def)
  have g: "30 < length (processedPosts ''fam'' ''A'' (Some thirty_one_rows))
      \<and> length (processedPosts ''fam'' ''A'' (Some thirty_one_rows)) - 30
          \<le> length (filter (\<lambda>p. \<not> is_favorite p) (processedPosts ''fam'' ''A'' (Some thirty_one_rows)))
      \<and> distinct (map post_id (processedPosts ''fam'' ''A'' (Some thirty_one_rows)))"
    unfolding thirty_one_length thirty_one_nonfav using thirty_one_distinct by simp
  have e: "length (processedPosts ''fam'' ''A'' (Some thirty_one_rows)) - 30 = 1"
    unfolding thirty_one_length by simp
  have p: "processedPosts ''fam'' ''A'' (Some favourite_rows) = favourite_feed"
    by (simp add: processedPosts_def favourite_feed_def favourite_rows_def example_post_def)
  have l3: "length favourite_feed = 3" by (simp add: favourite_feed_def)
  have l3': "length favourite_feed \<le> 30" unfolding l3 by simp
  have a: "snd (fetchPosts ''fam'' (example_response None thirty_one_rows) initial_state) = [''x'']
      \<and> length (posts (fst (fetchPosts ''fam'' (example_response None thirty_one_rows) initial_state))) = 30"
    using default_photo_limit[where resp = "example_response None thirty_one_rows" and uid = "''A''"
        and data = "Some thirty_one_rows" and f = "''fam''" and st = initial_state
        and ps = "processedPosts ''fam'' ''A'' (Some thirty_one_rows)"] r g
    unfolding e thirty_one_oldest by blast
  have b: "snd (fetchPosts ''fam'' (example_response (Some 0) thirty_one_rows) initial_state) = [''x'']
      \<and> length (posts (fst (fetchPosts ''fam'' (example_response (Some 0) thirty_one_rows) initial_state))) = 30"
    using default_photo_limit[where resp = "example_response (Some 0) thirty_one_rows" and uid = "''A''"
        and data = "Some thirty_one_rows" and f = "''fam''" and st = initial_state
        and ps = "processedPosts ''fam'' ''A'' (Some thirty_one_rows)"] r g
    unfolding e thirty_one_oldest by blast
  have c: "fetchPosts ''fam'' (example_response (Some 0) favourite_rows) initial_state
       = (initial_state\<lparr>posts := favourite_feed, loading := False\<rparr>, [])"
    using default_photo_limit[where resp = "example_response (Some 0) favourite_rows" and uid = "''A''"
        and data = "Some favourite_rows" and f = "''fam''" and st = initial_state
        and ps = favourite_feed] r p l3'
    by blast
  show ?thesis
    unfolding p using thirty_one_length thirty_one_distinct r a b c l3 by simp
qed

section \<open>Streak calculator\<close>

lemma daysSinceLastPost_eq: "daysSinceLastPost today l = today - l"
proof -
  have nz: "ms_per_day \<noteq> 0" by (simp add: ms_per_day_def)
  have "date_getTime today - date_getTime l = (today - l) * ms_per_day"
    by (simp add: date_getTime_def left_diff_distrib)
  then show ?thesis
    unfolding daysSinceLastPost_def using nz by simp
qed

text \<open>
  C3. For every stored last post date (null or an instant), every current streak and every
  instant \<open>now\<close>: the number of days the source computes is the difference of the two UTC
  calendar days; the new streak is 1 when the stored date is null, the current streak
  when that difference is 0, the current streak plus one when it is 1, and 1 when it is
  greater than 1 or negative.
\<close>

theorem streak_calculator:
  "newStreakCount None s now = 1
   \<and> daysSinceLastPost (toISODate now) (toISODate l) = toISODate now - toISODate l
   \<and> (toISODate now - toISODate l = 0 \<longrightarrow> newStreakCount (Some l) s now = s)
   \<and> (toISODate now - toISODate l = 1 \<longrightarrow> newStreakCount (Some l) s now = s + 1)
   \<and> (toISODate now - toISODate l > 1 \<or> toISODate now - toISODate l < 0
        \<longrightarrow> newStreakCount (Some l) s now = 1)"
proof -
  have n: "newStreakCount (Some l) s now =
      (if toISODate now - toISODate l = 1 then s + 1
       else if toISODate now - toISODate l = 0 then s else 1)"
    by (simp add: newStreakCount_def Let_def daysSinceLastPost_eq)
  have z: "newStreakCount None s now = 1"
    by (simp add: newStreakCount_def)
  show ?thesis
    unfolding n z daysSinceLastPost_eq by simp
qed

theorem streak_calculator_witness:
  "toISODate 1700000000000 - toISODate 1699950000000 = 0
   \<and> newStreakCount (Some 1699950000000) 4 1700000000000 = 4
   \<and> toISODate 1700000000000 - toISODate 1699900000000 = 1
   \<and> newStreakCount (Some 1699900000000) 4 1700000000000 = 5
   \<and> toISODate 1700000000000 - toISODate 1699700000000 > 1
   \<and> newStreakCount (Some 1699700000000) 4 1700000000000 = 1
   \<and> toISODate 1700000000000 - toISODate 1700100000000 < 0
   \<and> newStreakCount (Some 1700100000000) 4 1700000000000 = 1
   \<and> newStreakCount None 4 1700000000000 = 1"
proof -
  have a: "toISODate 1700000000000 - toISODate 1699950000000 = 0"
    by (simp add: toISODate_def ms_per_day_def)
  have b: "toISODate 1700000000000 - toISODate 1699900000000 = 1"
    by (simp add: toISODate_def ms_per_day_def)
  have c: "toISODate 1700000000000 - toISODate 1699700000000 > 1"
    by (simp add: toISODate_def ms_per_day_def)
  have d: "toISODate 1700000000000 - toISODate 1700100000000 < 0"
    by (simp add: toISODate_def ms_per_day_def)
  show ?thesis
    using streak_calculator[of 4 1700000000000 1699950000000]
      streak_calculator[of 4 1700000000000 1699900000000]
      streak_calculator[of 4 1700000000000 1699700000000]
      streak_calculator[of 4 1700000000000 1700100000000] a b c d
    by simp
qed

section \<open>Post creation\<close>

text \<open>
  C8. When the acting user and the profile are found and the three writes succeed,
  \<open>createPost\<close> returns the row the backend created; the post it inserted carries as
  \<open>streak_count\<close> the streak computed from the stored \<open>last_post_date\<close> and
  \<open>streak_count\<close> of the user and today; the update of the user that follows writes that
  same streak and today's date as \<open>last_post_date\<close>. A call returns a post only in that
  case, and when any of the three writes (post, family links, user) fails the caller gets
  the error \<open>Failed to create post\<close>.
\<close>

theorem createPost_streak_snapshot:
  "(create_auth_user resp = Some uid \<and> profile_result resp = Inr prof \<and> post_result resp = Inr row
      \<and> family_links_error resp = None \<and> update_error resp = None \<longrightarrow>
    createPost p fams now resp =
      (Inr row,
       [InsertPost \<lparr>ins_username = profile_name prof,
                    ins_media_url = new_media_url p,
                    ins_media_type = new_media_type p,
                    ins_caption = new_caption p,
                    ins_avatar_url = avatar_or_default (profile_avatar_url prof),
                    ins_user_id = uid,
                    ins_streak_count =
                      newStreakCount (last_post_date prof) (profile_streak_count prof) now\<rparr>,
        InsertPostFamilies (map (\<lambda>f. (post_id row, f)) fams),
        UpdateUser uid (newStreakCount (last_post_date prof) (profile_streak_count prof) now)
          (toISODate now)]))
   \<and> (fst (createPost p fams now resp) = Inr row \<longrightarrow>
        (\<exists>uid prof. create_auth_user resp = Some uid \<and> profile_result resp = Inr prof)
        \<and> post_result resp = Inr row \<and> family_links_error resp = None \<and> update_error resp = None)
   \<and> ((\<exists>e. post_result resp = Inl e) \<or> family_links_error resp \<noteq> None \<or> update_error resp \<noteq> None
        \<longrightarrow> fst (createPost p fams now resp) = Inl create_failed)"
proof (intro conjI impI)
  assume "create_auth_user resp = Some uid \<and> profile_result resp = Inr prof \<and> post_result resp = Inr row
      \<and> family_links_error resp = None \<and> update_error resp = None"
  then show "createPost p fams now resp =
      (Inr row,
       [InsertPost \<lparr>ins_username = profile_name prof,
                    ins_media_url = new_media_url p,
                    ins_media_type = new_media_type p,
                    ins_caption = new_caption p,
                    ins_avatar_url = avatar_or_default (profile_avatar_url prof),
                    ins_user_id = uid,
                    ins_streak_count =
                      newStreakCount (last_post_date prof) (profile_streak_count prof) now\<rparr>,
        InsertPostFamilies (map (\<lambda>f. (post_id row, f)) fams),
        UpdateUser uid (newStreakCount (last_post_date prof) (profile_streak_count prof) now)
          (toISODate now)])"
    by (simp add: createPost_def Let_def)
next
  assume a: "fst (createPost p fams now resp) = Inr row"
  then show "\<exists>uid prof. create_auth_user resp = Some uid \<and> profile_result resp = Inr prof"
    by (simp add: createPost_def Let_def split: option.splits sum.splits)
  from a show "post_result resp = Inr row"
    by (simp add: createPost_def Let_def split: option.splits sum.splits)
  from a show "family_links_error resp = None"
    by (simp add: createPost_def Let_def split: option.splits sum.splits)
  from a show "update_error resp = None"
    by (simp add: createPost_def Let_def split: option.splits sum.splits)
next
  assume "(\<exists>e. post_result resp = Inl e) \<or> family_links_error resp \<noteq> None \<or> update_error resp \<noteq> None"
  then show "fst (createPost p fams now resp) = Inl create_failed"
    by (auto simp: createPost_def Let_def split: option.splits sum.splits)
qed

theorem createPost_streak_snapshot_witness:
  "createPost example_draft [''fam'', ''fam2''] 1700000000000 (example_create_responses None)
     = (Inr (example_row ''p5'' 1700000000000 False None),
        [InsertPost \<lparr>ins_username = ''ann'', ins_media_url = ''m'', ins_media_type = ''image'',
                     ins_caption = ''c'', ins_avatar_url = ''a'', ins_user_id = ''u1'',
                     ins_streak_count = 5\<rparr>,
         InsertPostFamilies [(''p5'', ''fam''), (''p5'', ''fam2'')],
         UpdateUser ''u1'' 5 19675])
   \<and> update_error (example_create_responses (Some NonError)) \<noteq> None
   \<and> fst (createPost example_draft [''fam'', ''fam2''] 1700000000000
             (example_create_responses (Some NonError))) = Inl create_failed"
proof -
  have n: "newStreakCount (Some 1699900000000) 4 1700000000000 = 5"
    by (simp add: newStreakCount_def Let_def daysSinceLastPost_def date_getTime_def
          toISODate_def ms_per_day_def)
  have t: "toISODate 1700000000000 = 19675"
    by (simp add: toISODate_def ms_per_day_def)
  have r: "create_auth_user (example_create_responses None) = Some ''u1''
      \<and> profile_result (example_create_responses None) = Inr example_profile
      \<and> post_result (example_create_responses None) = Inr (example_row ''p5'' 1700000000000 False None)
      \<and> family_links_error (example_create_responses None) = None
      \<and> update_error (example_create_responses None) = None"
    by (simp add: example_create_responses_def)
  have f: "update_error (example_create_responses (Some NonError)) \<noteq> None"
    by (simp add: example_create_responses_def)
  have a: "createPost example_draft [''fam'', ''fam2''] 1700000000000 (example_create_responses None)
     = (Inr (example_row ''p5'' 1700000000000 False None),
        [InsertPost \<lparr>ins_username = ''ann'', ins_media_url = ''m'', ins_media_type = ''image'',
                     ins_caption = ''c'', ins_avatar_url = ''a'', ins_user_id = ''u1'',
                     ins_streak_count = 5\<rparr>,
         InsertPostFamilies [(''p5'', ''fam''), (''p5'', ''fam2'')],
         UpdateUser ''u1'' 5 19675])"
    using createPost_streak_snapshot[of "example_create_responses None" "''u1''" example_profile
        "example_row ''p5'' 1700000000000 False None" example_draft "[''fam'', ''fam2'']" 1700000000000] r
    by (simp add: example_profile_def example_draft_def avatar_or_default_def n t example_row_def)
  have b: "fst (createPost example_draft [''fam'', ''fam2''] 1700000000000
             (example_create_responses (Some NonError))) = Inl create_failed"
    using createPost_streak_snapshot[of "example_create_responses (Some NonError)" uid prof row
        example_draft "[''fam'', ''fam2'']" 1700000000000 for uid prof row] f
    by blast
  show ?thesis using a f b by (intro conjI)
qed

section \<open>Toggling a favourite: the contract\<close>

lemma flip_favorite_fields:
  "map post_id (flip_favorite postId ps) = map post_id ps
   \<and> map timestamp (flip_favorite postId ps) = map timestamp ps
   \<and> map is_favorite (flip_favorite postId ps)
       = map (\<lambda>p. if post_id p = postId then \<not> is_favorite p else is_favorite p) ps"
  by (simp add: flip_favorite_def)

text \<open>
  C7, as amended. For every post id, with \<open>st\<close> the local state the call sees and
  \<open>st_now\<close> the local state when the backend answers: if no post of \<open>st\<close> has that id,
  the operation throws, leaves the state as it is and sends no request. If a post has it,
  the update request carrying the flipped flag of that post is sent while the local state
  is still unchanged; if the backend refuses the write, the operation throws and leaves
  the local state as it is at that moment (this call never changed it, so it is the state
  before the call when nothing else changed it meanwhile); if the backend accepts it, the
  flag \<open>is_favorite\<close> is negated on the posts with that id in the state of that moment,
  and nothing else changes in ids or order; when nothing else changed the state
  meanwhile, the result is the state before the call with the flag flipped.
\<close>

theorem toggleFavorite_contract:
  "(postId \<notin> set (map post_id (posts st)) \<longrightarrow>
      toggleFavorite postId write_error st st_now = (Inl toggle_failed, st, []))
   \<and> (find (\<lambda>p. post_id p = postId) (posts st) = Some p \<longrightarrow>
        toggleFavorite_pending postId st = Inr (UpdateFavorite postId (\<not> is_favorite p), st)
        \<and> toggleFavorite postId (Some err) st st_now
            = (Inl toggle_failed, st_now, [UpdateFavorite postId (\<not> is_favorite p)])
        \<and> toggleFavorite postId None st st_now
            = (Inr (), st_now\<lparr>posts := flip_favorite postId (posts st_now)\<rparr>,
               [UpdateFavorite postId (\<not> is_favorite p)])
        \<and> toggleFavorite postId (Some err) st st
            = (Inl toggle_failed, st, [UpdateFavorite postId (\<not> is_favorite p)])
        \<and> toggleFavorite postId None st st
            = (Inr (), st\<lparr>posts := flip_favorite postId (posts st)\<rparr>,
               [UpdateFavorite postId (\<not> is_favorite p)]))
   \<and> map post_id (flip_favorite postId ps) = map post_id ps
   \<and> map is_favorite (flip_favorite postId ps)
       = map (\<lambda>p. if post_id p = postId then \<not> is_favorite p else is_favorite p) ps"
proof (intro conjI impI)
  assume "postId \<notin> set (map post_id (posts st))"
  then have "find (\<lambda>p. post_id p = postId) (posts st) = None"
    by (auto simp: find_None_iff)
  then show "toggleFavorite postId write_error st st_now = (Inl toggle_failed, st, [])"
    by (simp add: toggleFavorite_def toggleFavorite_pending_def)
next
  assume f: "find (\<lambda>p. post_id p = postId) (posts st) = Some p"
  then show "toggleFavorite_pending postId st = Inr (UpdateFavorite postId (\<not> is_favorite p), st)"
    by (simp add: toggleFavorite_pending_def)
  have a: "toggleFavorite postId (Some err) st s'
            = (Inl toggle_failed, s', [UpdateFavorite postId (\<not> is_favorite p)])" for s'
    using f by (simp add: toggleFavorite_def toggleFavorite_pending_def toggleFavorite_resume_def)
  have b: "toggleFavorite postId None st s'
            = (Inr (), s'\<lparr>posts := flip_favorite postId (posts s')\<rparr>,
               [UpdateFavorite postId (\<not> is_favorite p)])" for s'
    using f by (simp add: toggleFavorite_def toggleFavorite_pending_def toggleFavorite_resume_def)
  show "toggleFavorite postId (Some err) st st_now
            = (Inl toggle_failed, st_now, [UpdateFavorite postId (\<not> is_favorite p)])"
    by (rule a)
  show "toggleFavorite postId None st st_now
            = (Inr (), st_now\<lparr>posts := flip_favorite postId (posts st_now)\<rparr>,
               [UpdateFavorite postId (\<not> is_favorite p)])"
    by (rule b)
  show "toggleFavorite postId (Some err) st st
            = (Inl toggle_failed, st, [UpdateFavorite postId (\<not> is_favorite p)])"
    by (rule a)
  show "toggleFavorite postId None st st
            = (Inr (), st\<lparr>posts := flip_favorite postId (posts st)\<rparr>,
               [UpdateFavorite postId (\<not> is_favorite p)])"
    by (rule b)
next
  show "map post_id (flip_favorite postId ps) = map post_id ps"
    by (simp add: flip_favorite_fields)
  show "map is_favorite (flip_favorite postId ps)
       = map (\<lambda>p. if post_id p = postId then \<not> is_favorite p else is_favorite p) ps"
    by (simp add: flip_favorite_fields)
qed

lemma ready_find: "find (\<lambda>p. post_id p = ''p4'') (posts ready_state) = Some (example_post ''p4'' 40 False)"
  by (simp add: ready_state_def example_defs)

lemma ready_first:
  "post_id (hd (posts ready_state)) = ''p4'' \<and> \<not> is_favorite (hd (posts ready_state))"
  by (simp add: ready_state_def example_defs)

text \<open>
  C7 as stated fails: while the update of post \<open>p4\<close> is pending, the local state still
  shows \<open>p4\<close> as not a favourite; the flip is not applied before the backend confirms.
\<close>

theorem toggleFavorite_optimistic_counterexample:
  "toggleFavorite_pending ''p4'' ready_state = Inr (UpdateFavorite ''p4'' True, ready_state)
   \<and> post_id (hd (posts ready_state)) = ''p4''
   \<and> \<not> is_favorite (hd (posts ready_state))"
  using ready_find ready_first by (simp add: toggleFavorite_pending_def example_defs)

text \<open>
  The contract at \<open>ready_state\<close>, ending with two overlapping calls on \<open>p4\<close>, both
  made from the render that shows \<open>ready_state\<close>: the second is answered when the first
  has flipped the flag. Both send \<open>true\<close>, and the second updater negates the flag again.
\<close>

theorem toggleFavorite_contract_witness:
  "''zz'' \<notin> set (map post_id (posts ready_state))
   \<and> toggleFavorite ''zz'' None ready_state ready_state = (Inl toggle_failed, ready_state, [])
   \<and> find (\<lambda>p. post_id p = ''p4'') (posts ready_state) = Some (example_post ''p4'' 40 False)
   \<and> toggleFavorite ''p4'' (Some NonError) ready_state ready_state
        = (Inl toggle_failed, ready_state, [UpdateFavorite ''p4'' True])
   \<and> toggleFavorite ''p4'' None ready_state ready_state
        = (Inr (), toggled_state, [UpdateFavorite ''p4'' True])
   \<and> map is_favorite (posts toggled_state) = [True, True, False, False]
   \<and> snd (snd (toggleFavorite ''p4'' None ready_state toggled_state)) = [UpdateFavorite ''p4'' True]
   \<and> map is_favorite (posts (fst (snd (toggleFavorite ''p4'' None ready_state toggled_state))))
        = [False, True, False, False]"
proof -
  have z: "''zz'' \<notin> set (map post_id (posts ready_state))"
    by (simp add: ready_state_def example_defs)
  have nf: "\<not> is_favorite (example_post ''p4'' 40 False)"
    by (simp add: example_defs)
  have t: "ready_state\<lparr>posts := flip_favorite ''p4'' (posts ready_state)\<rparr> = toggled_state"
    by (simp add: toggled_state_def)
  have m: "map (\<lambda>p. if post_id p = ''p4'' then \<not> is_favorite p else is_favorite p) (posts ready_state)
       = [True, True, False, False]"
    by (simp add: ready_state_def example_feed_def example_post_fields)
  have pt: "posts toggled_state = flip_favorite ''p4'' (posts ready_state)"
    by (simp add: toggled_state_def)
  have m1: "map is_favorite (posts toggled_state) = [True, True, False, False]"
    using toggleFavorite_contract[where postId = "''p4''" and ps = "posts ready_state"] m
    unfolding pt by simp
  have pts: "posts toggled_state
        = [(example_post ''p4'' 40 False)\<lparr>is_favorite := True\<rparr>, example_post ''p3'' 30 True,
           example_post ''p2'' 20 False, example_post ''p1'' 10 False]"
    by (simp add: toggled_state_def ready_state_def example_feed_def flip_favorite_def
        example_post_fields)
  have m': "map (\<lambda>p. if post_id p = ''p4'' then \<not> is_favorite p else is_favorite p) (posts toggled_state)
       = [False, True, False, False]"
    unfolding pts by (simp add: example_post_fields)
  have m2: "map is_favorite (flip_favorite ''p4'' (posts toggled_state)) = [False, True, False, False]"
    using toggleFavorite_contract[where postId = "''p4''" and ps = "posts toggled_state"] m'
    by simp
  have c1: "toggleFavorite ''zz'' None ready_state ready_state = (Inl toggle_failed, ready_state, [])"
    using toggleFavorite_contract[where postId = "''zz''" and st = ready_state
        and write_error = None and st_now = ready_state] z
    by blast
  have c2: "toggleFavorite ''p4'' (Some NonError) ready_state ready_state
        = (Inl toggle_failed, ready_state, [UpdateFavorite ''p4'' True])"
    using toggleFavorite_contract[where postId = "''p4''" and st = ready_state
        and p = "example_post ''p4'' 40 False" and err = NonError and st_now = ready_state]
      ready_find nf
    by simp
  have c3: "toggleFavorite ''p4'' None ready_state ready_state
        = (Inr (), toggled_state, [UpdateFavorite ''p4'' True])"
    using toggleFavorite_contract[where postId = "''p4''" and st = ready_state
        and p = "example_post ''p4'' 40 False" and st_now = ready_state]
      ready_find nf t
    by simp
  have c4: "toggleFavorite ''p4'' None ready_state toggled_state
        = (Inr (), toggled_state\<lparr>posts := flip_favorite ''p4'' (posts toggled_state)\<rparr>,
           [UpdateFavorite ''p4'' True])"
    using toggleFavorite_contract[where postId = "''p4''" and st = ready_state
        and p = "example_post ''p4'' 40 False" and st_now = toggled_state]
      ready_find nf
    by simp
  show ?thesis
    unfolding c4 using z c1 ready_find c2 c3 m1 m2 by simp
qed

section \<open>Feed ordering\<close>

lemma newest_first_process:
  "newest_first (map (process_post f uid) rows) = newest_first rows"
  by (simp add: newest_first_def sorted_wrt_map process_post_def Let_def post_row.defs post.defs)

lemma newest_first_flip: "newest_first (flip_favorite postId ps) = newest_first ps"
  by (simp add: newest_first_def flip_favorite_def sorted_wrt_map)

lemma newest_first_retention:
  "newest_first ps \<Longrightarrow> newest_first (snd (retention ps limit))"
  by (simp add: retention_def Let_def newest_first_filter)

lemma fetch_failed_posts: "posts (fetch_failed err st) = posts st"
  by (simp add: fetch_failed_def)

lemma newest_first_fetchPosts:
  assumes "ordered_response resp" "newest_first (posts st)"
  shows "newest_first (posts (fst (fetchPosts f resp st)))"
proof (cases "auth_user resp")
  case None
  then show ?thesis using assms(2) by (simp add: fetchPosts_def fetch_failed_posts)
next
  case (Some uid)
  show ?thesis
  proof (cases "family_result resp")
    case (Inl e)
    then show ?thesis using Some assms(2) by (simp add: fetchPosts_def fetch_failed_posts)
  next
    case (Inr lim)
    show ?thesis
    proof (cases "posts_result resp")
      case (Inl e)
      then show ?thesis using Some Inr assms(2) by (simp add: fetchPosts_def fetch_failed_posts)
    next
      case data: (Inr data)
      have "newest_first (processedPosts f uid data)"
        using assms(1) data
        by (cases data) (simp_all add: processedPosts_def ordered_response_def newest_first_process,
            simp add: newest_first_def)
      then show ?thesis
        using Some Inr data by (simp add: fetchPosts_ok newest_first_retention)
    qed
  qed
qed

lemma newest_first_resume:
  "newest_first (posts st) \<Longrightarrow> newest_first (posts (snd (toggleFavorite_resume postId we st)))"
  by (auto simp: toggleFavorite_resume_def newest_first_flip split: option.splits)

lemma start_toggleFavorite_hook: "hook (start_toggleFavorite postId e) = hook e"
  by (simp add: start_toggleFavorite_def toggleFavorite_pending_def split: option.splits)

lemma newest_first_step:
  assumes "ordered_event ev" "newest_first (posts (hook e))"
  shows "newest_first (posts (hook (step e ev)))"
proof (cases ev)
  case Change
  then show ?thesis using assms(2)
    by (simp add: on_change_def start_fetchPosts_def split: option.splits)
next
  case Refresh
  then show ?thesis using assms(2)
    by (simp add: refreshPosts_def start_fetchPosts_def split: option.splits)
next
  case (Settle i resp)
  then show ?thesis using assms
    by (simp add: settle_def newest_first_fetchPosts)
next
  case (ToggleFavorite postId)
  then show ?thesis using assms(2)
    by (simp add: start_toggleFavorite_hook)
next
  case (SettleToggle i we)
  then show ?thesis using assms(2)
    by (simp add: settle_toggle_def newest_first_resume)
qed

lemma newest_first_run:
  "\<forall>ev \<in> set evs. ordered_event ev \<Longrightarrow> newest_first (posts (hook e))
     \<Longrightarrow> newest_first (posts (hook (run e evs)))"
  unfolding run_def
  by (induction evs arbitrary: e) (simp_all add: newest_first_step)

lemma newest_first_usePosts: "newest_first (posts (hook (usePosts fid)))"
  by (simp add: usePosts_def initial_state_def start_fetchPosts_def newest_first_def Let_def
      split: option.splits)

text \<open>
  C5. The hook starts with an empty list of posts, which is newest first. Whenever the
  backend answers the posts query in the order the query asks for (timestamps
  descending), every sequence of events (change notifications, refreshes, hydrations
  finishing with success or failure, calls of \<open>toggleFavorite\<close> and the answers to their
  updates, success or failure, in any interleaving) leaves
  the published posts newest first: a hydration publishes the backend's sequence,
  filtered by the eviction without reordering, and \<open>toggleFavorite\<close> maps over the list
  in place. The same holds from any state whose posts are newest first.
\<close>

theorem feed_newest_first:
  "(\<forall>ev \<in> set evs. ordered_event ev) \<longrightarrow>
     newest_first (posts (hook (run (usePosts fid) evs)))
     \<and> (newest_first (posts (hook e)) \<longrightarrow> newest_first (posts (hook (run e evs))))"
  by (simp add: newest_first_run newest_first_usePosts)

lemma example_rows_hydration:
  "fetchPosts ''fam'' (example_response (Some 2) example_rows) st
     = (st\<lparr>posts := [example_post ''p4'' 40 False, example_post ''p3'' 30 True], loading := False\<rparr>,
        [''p1'', ''p2''])"
proof -
  have p: "processedPosts ''fam'' ''A'' (Some example_rows) = example_feed"
    by (simp add: processedPosts_def example_feed_def example_rows_def example_post_def)
  have r: "retention example_feed 2
       = ([example_post ''p1'' 10 False, example_post ''p2'' 20 False],
          [example_post ''p4'' 40 False, example_post ''p3'' 30 True])"
    by (simp add: retention_def Let_def example_feed_def example_post_fields)
  show ?thesis
    by (simp add: fetchPosts_def example_response_def photoLimit_def p r example_post_fields)
qed

theorem feed_newest_first_witness:
  "ordered_event (Settle 0 (example_response (Some 2) example_rows))
   \<and> ordered_event (ToggleFavorite ''p4'')
   \<and> ordered_event (SettleToggle 0 None)
   \<and> ordered_event Change
   \<and> ordered_event (Settle 0 unauthenticated)
   \<and> newest_first (posts (hook (usePosts (Some ''fam''))))
   \<and> newest_first (posts (hook (run (usePosts (Some ''fam''))
        [Settle 0 (example_response (Some 2) example_rows), ToggleFavorite ''p4'',
         SettleToggle 0 None, Change, Settle 0 unauthenticated])))
   \<and> map post_id (posts (hook (run (usePosts (Some ''fam''))
        [Settle 0 (example_response (Some 2) example_rows), ToggleFavorite ''p4'',
         SettleToggle 0 None, Change, Settle 0 unauthenticated]))) = [''p4'', ''p3'']"
proof -
  have o: "\<forall>ev \<in> set [Settle 0 (example_response (Some 2) example_rows), ToggleFavorite ''p4'',
                 SettleToggle 0 None, Change, Settle 0 unauthenticated]. ordered_event ev"
    by (simp add: ordered_response_def example_response_def unauthenticated_def example_rows_def
        example_row_def newest_first_def)
  have i: "newest_first (posts (hook (usePosts (Some ''fam''))))"
    by (simp add: usePosts_def truthy_id_def Let_def start_fetchPosts_def initial_state_def
        newest_first_def)
  have u: "usePosts (Some ''fam'')
        = \<lparr>familyId = Some ''fam'', hook = initial_state, in_flight = [''fam''],
           toggles_in_flight = []\<rparr>"
    by (simp add: usePosts_def truthy_id_def Let_def start_fetchPosts_def)
  have s1: "step \<lparr>familyId = Some ''fam'', hook = initial_state, in_flight = [''fam''],
                  toggles_in_flight = []\<rparr>
              (Settle 0 (example_response (Some 2) example_rows))
        = \<lparr>familyId = Some ''fam'',
           hook = \<lparr>posts = [example_post ''p4'' 40 False, example_post ''p3'' 30 True],
                   loading = False, error = None\<rparr>,
           in_flight = [], toggles_in_flight = []\<rparr>"
    by (simp add: settle_def example_rows_hydration initial_state_def)
  have s2: "step \<lparr>familyId = Some ''fam'',
           hook = \<lparr>posts = [example_post ''p4'' 40 False, example_post ''p3'' 30 True],
                   loading = False, error = None\<rparr>,
           in_flight = [], toggles_in_flight = []\<rparr> (ToggleFavorite ''p4'')
        = \<lparr>familyId = Some ''fam'',
           hook = \<lparr>posts = [example_post ''p4'' 40 False, example_post ''p3'' 30 True],
                   loading = False, error = None\<rparr>,
           in_flight = [], toggles_in_flight = [''p4'']\<rparr>"
    by (simp add: start_toggleFavorite_def toggleFavorite_pending_def example_post_fields)
  have s3: "step \<lparr>familyId = Some ''fam'',
           hook = \<lparr>posts = [example_post ''p4'' 40 False, example_post ''p3'' 30 True],
                   loading = False, error = None\<rparr>,
           in_flight = [], toggles_in_flight = [''p4'']\<rparr> (SettleToggle 0 None)
        = \<lparr>familyId = Some ''fam'',
           hook = \<lparr>posts = [(example_post ''p4'' 40 False)\<lparr>is_favorite := True\<rparr>,
                            example_post ''p3'' 30 True],
                   loading = False, error = None\<rparr>,
           in_flight = [], toggles_in_flight = []\<rparr>"
    by (simp add: settle_toggle_def toggleFavorite_resume_def flip_favorite_def example_post_fields)
  have s4: "step \<lparr>familyId = Some ''fam'',
           hook = \<lparr>posts = [(example_post ''p4'' 40 False)\<lparr>is_favorite := True\<rparr>,
                            example_post ''p3'' 30 True],
                   loading = False, error = None\<rparr>,
           in_flight = [], toggles_in_flight = []\<rparr> Change
        = \<lparr>familyId = Some ''fam'',
           hook = \<lparr>posts = [(example_post ''p4'' 40 False)\<lparr>is_favorite := True\<rparr>,
                            example_post ''p3'' 30 True],
                   loading = False, error = None\<rparr>,
           in_flight = [''fam''], toggles_in_flight = []\<rparr>"
    by (simp add: on_change_def truthy_id_def start_fetchPosts_def)
  have s5: "step \<lparr>familyId = Some ''fam'',
           hook = \<lparr>posts = [(example_post ''p4'' 40 False)\<lparr>is_favorite := True\<rparr>,
                            example_post ''p3'' 30 True],
                   loading = False, error = None\<rparr>,
           in_flight = [''fam''], toggles_in_flight = []\<rparr> (Settle 0 unauthenticated)
        = \<lparr>familyId = Some ''fam'',
           hook = \<lparr>posts = [(example_post ''p4'' 40 False)\<lparr>is_favorite := True\<rparr>,
                            example_post ''p3'' 30 True],
                   loading = False, error = Some ''Not authenticated''\<rparr>,
           in_flight = [], toggles_in_flight = []\<rparr>"
    by (simp add: settle_def fetchPosts_def unauthenticated_def fetch_failed_def)
  have r: "run (usePosts (Some ''fam''))
        [Settle 0 (example_response (Some 2) example_rows), ToggleFavorite ''p4'',
         SettleToggle 0 None, Change, Settle 0 unauthenticated]
        = \<lparr>familyId = Some ''fam'',
           hook = \<lparr>posts = [(example_post ''p4'' 40 False)\<lparr>is_favorite := True\<rparr>,
                            example_post ''p3'' 30 True],
                   loading = False, error = Some ''Not authenticated''\<rparr>,
           in_flight = [], toggles_in_flight = []\<rparr>"
    unfolding run_def foldl.simps u s1 s2 s3 s4 s5 by (rule refl)
  have m: "map post_id (posts (hook (run (usePosts (Some ''fam''))
        [Settle 0 (example_response (Some 2) example_rows), ToggleFavorite ''p4'',
         SettleToggle 0 None, Change, Settle 0 unauthenticated]))) = [''p4'', ''p3'']"
    unfolding r by (simp add: example_defs)
  show ?thesis
    using feed_newest_first[of "[Settle 0 (example_response (Some 2) example_rows),
        ToggleFavorite ''p4'', SettleToggle 0 None, Change, Settle 0 unauthenticated]"
        "Some ''fam''" "usePosts (Some ''fam'')"] o i m
    by simp
qed

section \<open>Change notifications\<close>

lemma in_flight_run_triggers:
  "truthy_id (familyId e) = Some f \<Longrightarrow> set evs \<subseteq> {Change, Refresh} \<Longrightarrow>
     in_flight (run e evs) = in_flight e @ replicate (length evs) f
     \<and> familyId (run e evs) = familyId e
     \<and> hook (run e evs) = hook e"
proof (induction evs arbitrary: e)
  case Nil
  then show ?case by (simp add: run_def)
next
  case (Cons ev evs)
  have s: "step e ev = e\<lparr>in_flight := in_flight e @ [f]\<rparr>"
    using Cons.prems
    by (auto simp: on_change_def refreshPosts_def start_fetchPosts_def)
  have t: "truthy_id (familyId (step e ev)) = Some f"
    unfolding s using Cons.prems(1) by simp
  have r: "run e (ev # evs) = run (step e ev) evs"
    by (simp add: run_def)
  have sub: "set evs \<subseteq> {Change, Refresh}" using Cons.prems(2) by simp
  show ?case
    unfolding r using Cons.IH[OF t sub]
    by (simp add: s replicate_app_Cons_same)
qed

text \<open>
  C9, as amended. Every change notification and every refresh starts a hydration at once,
  whatever is in flight: with a truthy family id, one notification adds one call of
  \<open>fetchPosts\<close> to those in flight and so does one refresh; \<open>n\<close> notifications in a row
  add \<open>n\<close>, and any sequence of notifications and refreshes adds as many calls as it has
  events; none of them changes the state of the hook.
\<close>

theorem notifications_start_hydrations:
  "truthy_id (familyId e) = Some f \<longrightarrow>
     in_flight (on_change e) = in_flight e @ [f]
     \<and> hook (on_change e) = hook e
     \<and> in_flight (refreshPosts e) = in_flight e @ [f]
     \<and> hook (refreshPosts e) = hook e
     \<and> in_flight (run e (replicate n Change)) = in_flight e @ replicate n f
     \<and> hook (run e (replicate n Change)) = hook e
     \<and> (set evs \<subseteq> {Change, Refresh} \<longrightarrow>
          in_flight (run e evs) = in_flight e @ replicate (length evs) f
          \<and> hook (run e evs) = hook e)"
proof
  assume t: "truthy_id (familyId e) = Some f"
  have a: "in_flight (on_change e) = in_flight e @ [f] \<and> hook (on_change e) = hook e"
    using t by (simp add: on_change_def start_fetchPosts_def)
  have b: "in_flight (refreshPosts e) = in_flight e @ [f] \<and> hook (refreshPosts e) = hook e"
    using t by (simp add: refreshPosts_def start_fetchPosts_def)
  have c: "in_flight (run e (replicate n Change)) = in_flight e @ replicate n f
     \<and> hook (run e (replicate n Change)) = hook e"
  proof -
    have "set (replicate n Change) \<subseteq> {Change, Refresh}" by auto
    from in_flight_run_triggers[OF t this] show ?thesis by simp
  qed
  have d: "set evs \<subseteq> {Change, Refresh} \<longrightarrow>
          in_flight (run e evs) = in_flight e @ replicate (length evs) f
          \<and> hook (run e evs) = hook e"
    using in_flight_run_triggers[OF t, of evs] by blast
  show "in_flight (on_change e) = in_flight e @ [f]
     \<and> hook (on_change e) = hook e
     \<and> in_flight (refreshPosts e) = in_flight e @ [f]
     \<and> hook (refreshPosts e) = hook e
     \<and> in_flight (run e (replicate n Change)) = in_flight e @ replicate n f
     \<and> hook (run e (replicate n Change)) = hook e
     \<and> (set evs \<subseteq> {Change, Refresh} \<longrightarrow>
          in_flight (run e evs) = in_flight e @ replicate (length evs) f
          \<and> hook (run e evs) = hook e)"
    using a b c d by (intro conjI) blast+
qed

text \<open>
  C9 as stated fails: with the hydration of the mount in flight, two change notifications
  leave three hydrations in flight, two of them follow-ups.
\<close>

theorem notification_coalescing_counterexample:
  "in_flight (usePosts (Some ''fam'')) = [''fam'']
   \<and> in_flight (run (usePosts (Some ''fam'')) [Change, Change]) = [''fam'', ''fam'', ''fam'']"
  by (simp add: run_def usePosts_def on_change_def start_fetchPosts_def truthy_id_def Let_def)

theorem notifications_start_hydrations_witness:
  "truthy_id (familyId (usePosts (Some ''fam''))) = Some ''fam''
   \<and> in_flight (on_change (usePosts (Some ''fam''))) = [''fam'', ''fam'']
   \<and> in_flight (refreshPosts (usePosts (Some ''fam''))) = [''fam'', ''fam'']
   \<and> hook (refreshPosts (usePosts (Some ''fam''))) = initial_state
   \<and> in_flight (run (usePosts (Some ''fam'')) (replicate 5 Change))
       = [''fam'', ''fam'', ''fam'', ''fam'', ''fam'', ''fam'']
   \<and> hook (run (usePosts (Some ''fam'')) (replicate 5 Change)) = initial_state
   \<and> in_flight (run (usePosts (Some ''fam'')) [Change, Refresh, Change])
       = [''fam'', ''fam'', ''fam'', ''fam'']
   \<and> hook (run (usePosts (Some ''fam'')) [Change, Refresh, Change]) = initial_state"
proof -
  have t: "truthy_id (familyId (usePosts (Some ''fam''))) = Some ''fam''"
    by (simp add: usePosts_def truthy_id_def Let_def start_fetchPosts_def)
  have i: "in_flight (usePosts (Some ''fam'')) = [''fam'']"
    by (simp add: usePosts_def truthy_id_def Let_def start_fetchPosts_def)
  have h: "hook (usePosts (Some ''fam'')) = initial_state"
    by (simp add: usePosts_def truthy_id_def Let_def start_fetchPosts_def)
  have r: "replicate 5 ''fam'' = [''fam'', ''fam'', ''fam'', ''fam'', ''fam'']"
    by (simp add: numeral_eq_Suc)
  have s: "set [Change, Refresh, Change] \<subseteq> {Change, Refresh}" by simp
  have l: "replicate (length [Change, Refresh, Change]) ''fam'' = [''fam'', ''fam'', ''fam'']"
    by simp
  show ?thesis
    using notifications_start_hydrations[of "usePosts (Some ''fam'')" "''fam''" 5
        "[Change, Refresh, Change]"] t s
    unfolding i h r l by simp
qed

section \<open>Recovery after a failed hydration\<close>

lemma fetchPosts_failure:
  "auth_user resp = None \<or> (\<exists>e. family_result resp = Inl e) \<or> (\<exists>e. posts_result resp = Inl e)
     \<Longrightarrow> error (fst (fetchPosts f resp st)) \<noteq> None \<and> posts (fst (fetchPosts f resp st)) = posts st
         \<and> \<not> loading (fst (fetchPosts f resp st))"
  by (auto simp: fetchPosts_def fetch_failed_def split: option.splits sum.splits)

text \<open>
  C6, as amended. A hydration that fails (no user, or an error from the settings or the
  posts request) sets the error message and leaves the posts as they were. A later
  refresh changes nothing in the state by itself; when its hydration succeeds, the new
  retained feed is published and \<open>loading\<close> is false, and the error message is the one
  the state had before: no successful hydration clears it.
\<close>

theorem refresh_after_error:
  "(auth_user resp = None \<or> (\<exists>e. family_result resp = Inl e) \<or> (\<exists>e. posts_result resp = Inl e)
      \<longrightarrow> error (fst (fetchPosts f resp st)) \<noteq> None
          \<and> posts (fst (fetchPosts f resp st)) = posts st)
   \<and> (truthy_id (familyId e) = Some f \<and> in_flight e = []
        \<and> auth_user resp = Some uid \<and> family_result resp = Inr lim \<and> posts_result resp = Inr data
      \<longrightarrow> hook (refreshPosts e) = hook e
          \<and> in_flight (refreshPosts e) = [f]
          \<and> posts (hook (settle 0 resp (refreshPosts e)))
              = snd (retention (processedPosts f uid data) (photoLimit lim))
          \<and> \<not> loading (hook (settle 0 resp (refreshPosts e)))
          \<and> error (hook (settle 0 resp (refreshPosts e))) = error (hook e))"
proof (intro conjI impI)
  assume "auth_user resp = None \<or> (\<exists>e. family_result resp = Inl e) \<or> (\<exists>e. posts_result resp = Inl e)"
  from fetchPosts_failure[OF this]
  show "error (fst (fetchPosts f resp st)) \<noteq> None"
    and "posts (fst (fetchPosts f resp st)) = posts st"
    by blast+
next
  assume a: "truthy_id (familyId e) = Some f \<and> in_flight e = []
        \<and> auth_user resp = Some uid \<and> family_result resp = Inr lim \<and> posts_result resp = Inr data"
  then have r: "refreshPosts e = e\<lparr>in_flight := [f]\<rparr>"
    by (simp add: refreshPosts_def start_fetchPosts_def)
  have s: "hook (settle 0 resp (refreshPosts e)) = fst (fetchPosts f resp (hook e))"
    unfolding r by (simp add: settle_def)
  have k: "fetchPosts f resp (hook e) =
           ((hook e)\<lparr>posts := snd (retention (processedPosts f uid data) (photoLimit lim)), loading := False\<rparr>,
            map post_id (fst (retention (processedPosts f uid data) (photoLimit lim))))"
    using a by (simp add: fetchPosts_ok[of resp uid lim data])
  show "hook (refreshPosts e) = hook e" unfolding r by simp
  show "in_flight (refreshPosts e) = [f]" unfolding r by simp
  show "posts (hook (settle 0 resp (refreshPosts e)))
              = snd (retention (processedPosts f uid data) (photoLimit lim))"
    unfolding s k by simp
  show "\<not> loading (hook (settle 0 resp (refreshPosts e)))"
    unfolding s k by simp
  show "error (hook (settle 0 resp (refreshPosts e))) = error (hook e)"
    unfolding s k by simp
qed

lemma example_hydration:
  "fetchPosts ''fam'' (example_response (Some 30) favourite_rows) st
     = (st\<lparr>posts := favourite_feed, loading := False\<rparr>, [])"
proof -
  have p: "processedPosts ''fam'' ''A'' (Some favourite_rows) = favourite_feed"
    by (simp add: processedPosts_def favourite_feed_def favourite_rows_def example_post_def)
  have r: "retention favourite_feed 30 = ([], favourite_feed)"
    by (simp add: retention_def favourite_feed_def)
  show ?thesis
    by (simp add: fetchPosts_def example_response_def photoLimit_def p r)
qed

lemma errored_run:
  "run (usePosts (Some ''fam'')) [Settle 0 unauthenticated]
     = \<lparr>familyId = Some ''fam'',
        hook = \<lparr>posts = [], loading = False, error = Some ''Not authenticated''\<rparr>,
        in_flight = [], toggles_in_flight = []\<rparr>"
  by (simp add: run_def usePosts_def truthy_id_def Let_def start_fetchPosts_def settle_def
      fetchPosts_def unauthenticated_def fetch_failed_def initial_state_def)

lemma run_append: "run e (xs @ ys) = run (run e xs) ys"
  by (simp add: run_def)

text \<open>
  C6 as stated fails: after an unauthenticated hydration, a refresh whose hydration
  succeeds publishes the feed and the state still reports \<open>Not authenticated\<close>.
\<close>

theorem errored_recovery_counterexample:
  "error (hook (run (usePosts (Some ''fam'')) [Settle 0 unauthenticated])) = Some ''Not authenticated''
   \<and> hook (run (usePosts (Some ''fam''))
        [Settle 0 unauthenticated, Refresh, Settle 0 (example_response (Some 30) favourite_rows)])
       = \<lparr>posts = favourite_feed, loading = False, error = Some ''Not authenticated''\<rparr>"
proof -
  have "run (usePosts (Some ''fam''))
          ([Settle 0 unauthenticated] @ [Refresh, Settle 0 (example_response (Some 30) favourite_rows)])
        = run (run (usePosts (Some ''fam'')) [Settle 0 unauthenticated])
            [Refresh, Settle 0 (example_response (Some 30) favourite_rows)]"
    by (rule run_append)
  then show ?thesis
    unfolding errored_run
    by (simp add: run_def refreshPosts_def truthy_id_def start_fetchPosts_def settle_def
        example_hydration)
qed

theorem refresh_after_error_witness:
  "auth_user unauthenticated = None
   \<and> error (fst (fetchPosts ''fam'' unauthenticated initial_state)) \<noteq> None
   \<and> truthy_id (familyId (run (usePosts (Some ''fam'')) [Settle 0 unauthenticated])) = Some ''fam''
   \<and> in_flight (run (usePosts (Some ''fam'')) [Settle 0 unauthenticated]) = []
   \<and> posts (hook (settle 0 (example_response (Some 30) favourite_rows)
        (refreshPosts (run (usePosts (Some ''fam'')) [Settle 0 unauthenticated])))) = favourite_feed
   \<and> error (hook (settle 0 (example_response (Some 30) favourite_rows)
        (refreshPosts (run (usePosts (Some ''fam'')) [Settle 0 unauthenticated]))))
       = Some ''Not authenticated''"
proof -
  have u: "auth_user unauthenticated = None" by (simp add: unauthenticated_def)
  have p: "processedPosts ''fam'' ''A'' (Some favourite_rows) = favourite_feed"
    by (simp add: processedPosts_def favourite_feed_def favourite_rows_def example_post_def)
  have r: "snd (retention favourite_feed (photoLimit (Some 30))) = favourite_feed"
    by (simp add: retention_def favourite_feed_def photoLimit_def)
  have x: "auth_user (example_response (Some 30) favourite_rows) = Some ''A''
        \<and> family_result (example_response (Some 30) favourite_rows) = Inr (Some 30)
        \<and> posts_result (example_response (Some 30) favourite_rows) = Inr (Some favourite_rows)"
    by (simp add: example_response_def)
  show ?thesis
    using refresh_after_error[of unauthenticated "''fam''" initial_state
        "\<lparr>familyId = Some ''fam'',
          hook = \<lparr>posts = [], loading = False, error = Some ''Not authenticated''\<rparr>,
          in_flight = [], toggles_in_flight = []\<rparr>" uid lim data for uid lim data]
      refresh_after_error[of "example_response (Some 30) favourite_rows" "''fam''" initial_state
        "\<lparr>familyId = Some ''fam'',
          hook = \<lparr>posts = [], loading = False, error = Some ''Not authenticated''\<rparr>,
          in_flight = [], toggles_in_flight = []\<rparr>" "''A''" "Some 30" "Some favourite_rows"]
      u x
    unfolding errored_run p r
    by (simp add: truthy_id_def)
qed

end
